theory Spec2Isabelle
  imports Main "HOL-Library.Sublist"
begin

section \<open>Data model of the chat-completion pipeline\<close>

text \<open>
  The development embeds \<^verbatim>\<open>MetaReferenceInferenceImpl.chat_completion\<close> of
  \<^verbatim>\<open>llama_toolchain/inference/meta_reference/inference.py\<close>.
  Python strings are \<open>string\<close>, token ids are \<open>int\<close>. A log-probability is
  only ever stored, never computed with, so its type is the parameter \<open>'l\<close>; a
  resolved model is opaque in the same way (\<open>'m\<close>).
\<close>

datatype StopReason = end_of_turn | end_of_message | out_of_tokens

datatype ToolCallParseStatus = started | in_progress | failure | success

datatype ChatCompletionResponseEventType = start | progress | complete

text \<open>A parsed tool call of \<^verbatim>\<open>llama_models\<close>. The method only passes tool calls on,
  from the decoded message into events.\<close>

record ToolCall =
  call_id :: string
  tool_name :: string
  arguments :: "(string \<times> string) list"

text \<open>
  Modelled from the spec: the declarations of \<^verbatim>\<open>llama_toolchain.inference.api\<close>
  (\<^verbatim>\<open>ToolCallDelta\<close>, \<^verbatim>\<open>ChatCompletionResponseEvent\<close>,
  \<^verbatim>\<open>ChatCompletionResponseStreamChunk\<close>, \<^verbatim>\<open>ChatCompletionResponse\<close>) are
  imported by the source file; their shape is the one of the constructor calls in
  \<^verbatim>\<open>chat_completion\<close>. The content of a tool-call delta is a string or a parsed
  tool call; a delta is a plain string or a tool-call delta; \<^verbatim>\<open>stop_reason\<close> of an
  event is optional and absent when the call does not pass it.
\<close>

datatype tool_content = Str string | Call ToolCall

datatype delta = TextDelta string | ToolCallDelta tool_content ToolCallParseStatus

record ChatCompletionResponseEvent =
  event_type :: ChatCompletionResponseEventType
  delta :: delta
  stop_reason :: "StopReason option"

text \<open>The assistant message returned by the external decoder
  \<^verbatim>\<open>generator.formatter.decode_assistant_message\<close>.\<close>

record CompletionMessage =
  content :: string
  msg_stop_reason :: StopReason
  tool_calls :: "ToolCall list"

text \<open>What the asynchronous generator yields: a stream chunk wrapping an event, or the
  single response of a non-streaming call.\<close>

datatype 'l yielded =
    ChatCompletionResponseStreamChunk ChatCompletionResponseEvent
  | ChatCompletionResponse CompletionMessage "'l list option"

text \<open>One step of the generation engine (\<^verbatim>\<open>token_result\<close>).\<close>

record 'l TokenResult =
  token :: int
  "text" :: string
  logprob :: "'l"

text \<open>
  The fields of the request that \<^verbatim>\<open>chat_completion\<close> itself reads. The messages
  and the sampling parameters are only handed to the generation engine, which is
  represented by the list of token results it yields. \<^verbatim>\<open>request.logprobs\<close> is used
  for its truth value only.
\<close>

record ChatCompletionRequest =
  model :: string
  stream :: bool
  logprobs :: bool

text \<open>
  The object \<^verbatim>\<open>self\<close> together with the external collaborators the method calls:
  \<^verbatim>\<open>self.model\<close>, \<^verbatim>\<open>resolve_model\<close> and \<^verbatim>\<open>descriptor()\<close> of
  \<^verbatim>\<open>llama_models\<close>, and the decoder of the generator's formatter.
\<close>

record 'm impl =
  self_model :: "'m"
  resolve_model :: "string \<Rightarrow> 'm option"
  descriptor :: "'m \<Rightarrow> string"
  decode_assistant_message :: "int list \<Rightarrow> StopReason \<Rightarrow> CompletionMessage"

text \<open>The three \<^verbatim>\<open>RuntimeError\<close>s of the method, told apart by their message:
  \<^verbatim>\<open>Unknown model: ...\<close>, \<^verbatim>\<open>Model mismatch: ...\<close> and
  \<^verbatim>\<open>Only one concurrent request is supported\<close> (the spec's \<open>Busy\<close>).\<close>

datatype error = Unknown_model string | Model_mismatch string string | Busy

text \<open>The local variables of the method that live across loop iterations.\<close>

record 'l locals =
  l_tokens :: "int list"
  l_logprobs :: "'l list"
  l_stop_reason :: "StopReason option"
  l_buffer :: string
  l_ipython :: bool

section \<open>The token loop\<close>

definition python_tag :: string where
  "python_tag = ''<|python_tag|>''"

definition eot_id :: string where
  "eot_id = ''<|eot_id|>''"

definition eom_id :: string where
  "eom_id = ''<|eom_id|>''"

definition chunk ::
  "ChatCompletionResponseEventType \<Rightarrow> delta \<Rightarrow> StopReason option \<Rightarrow> 'l yielded" where
  "chunk ty d sr =
     ChatCompletionResponseStreamChunk \<lparr>event_type = ty, delta = d, stop_reason = sr\<rparr>"

definition init :: "'l locals" where
  "init = \<lparr>l_tokens = [], l_logprobs = [], l_stop_reason = None, l_buffer = '''',
           l_ipython = False\<rparr>"

text \<open>
  One iteration of the \<^verbatim>\<open>for token_result in ...\<close> loop: the new locals and the
  chunks yielded during the iteration. Python's \<^verbatim>\<open>startswith\<close> is \<open>prefix\<close>,
  the slice \<^verbatim>\<open>buffer[len("<|python_tag|>"):]\<close> is \<open>drop\<close>. The two
  \<^verbatim>\<open>continue\<close> statements are the first two branches.
\<close>

definition step ::
  "ChatCompletionRequest \<Rightarrow> 'l locals \<Rightarrow> 'l TokenResult \<Rightarrow> 'l locals \<times> 'l yielded list" where
  "step request s token_result =
     (let s1 = s\<lparr>l_buffer := l_buffer s @ text token_result,
                 l_tokens := l_tokens s @ [token token_result]\<rparr>
      in if \<not> l_ipython s1 \<and> prefix python_tag (l_buffer s1) then
           (s1\<lparr>l_ipython := True,
               l_buffer := drop (length python_tag) (l_buffer s1)\<rparr>,
            [chunk progress (ToolCallDelta (Str '''') started) None])
         else if \<not> stream request then
           (if logprobs request
            then s1\<lparr>l_logprobs := l_logprobs s1 @ [logprob token_result]\<rparr>
            else s1, [])
         else
           (let (sr, txt) =
                  (if text token_result = eot_id then (Some end_of_turn, '''')
                   else if text token_result = eom_id then (Some end_of_message, '''')
                   else (l_stop_reason s1, text token_result));
                d = (if l_ipython s1 then ToolCallDelta (Str txt) in_progress
                     else TextDelta txt)
            in (s1\<lparr>l_stop_reason := sr\<rparr>,
                if sr = None then [chunk progress d sr] else [])))"

fun loop ::
  "ChatCompletionRequest \<Rightarrow> 'l locals \<Rightarrow> 'l TokenResult list \<Rightarrow> 'l locals \<times> 'l yielded list" where
  "loop request s [] = (s, [])"
| "loop request s (token_result # rest) =
     (let (s', ys) = step request s token_result;
          (s'', zs) = loop request s' rest
      in (s'', ys @ zs))"

text \<open>\<^verbatim>\<open>if stop_reason is None: stop_reason = StopReason.out_of_tokens\<close>\<close>

definition resolve_stop_reason :: "StopReason option \<Rightarrow> StopReason" where
  "resolve_stop_reason sr = (case sr of None \<Rightarrow> out_of_tokens | Some r \<Rightarrow> r)"

section \<open>The body of the method under the semaphore\<close>

text \<open>Everything the generator yields between acquiring and releasing the semaphore,
  in order, for the token results \<open>toks\<close> of the generation engine.\<close>

definition session_outputs ::
  "'m impl \<Rightarrow> ChatCompletionRequest \<Rightarrow> 'l TokenResult list \<Rightarrow> 'l yielded list" where
  "session_outputs self request toks =
     (let (s, ys) = loop request init toks;
          sr = resolve_stop_reason (l_stop_reason s);
          message = decode_assistant_message self (l_tokens s) sr
      in (if stream request then [chunk start (TextDelta '''') None] else [])
         @ ys
         @ (if stream request then
              (let parsed_tool_calls = (length (tool_calls message) > 0)
               in (if l_ipython s \<and> \<not> parsed_tool_calls
                   then [chunk progress (ToolCallDelta (Str '''') failure) (Some sr)]
                   else [])
                  @ map (\<lambda>tool_call.
                          chunk progress (ToolCallDelta (Call tool_call) success) (Some sr))
                        (tool_calls message)
                  @ [chunk complete (TextDelta '''') (Some sr)])
            else
              [ChatCompletionResponse message
                 (if logprobs request then Some (l_logprobs s) else None)]))"

text \<open>The checks made before the semaphore is looked at.\<close>

definition check_model :: "'m impl \<Rightarrow> ChatCompletionRequest \<Rightarrow> error option" where
  "check_model self request =
     (case resolve_model self (model request) of
        None \<Rightarrow> Some (Unknown_model (model request))
      | Some m \<Rightarrow>
          if descriptor self m \<noteq> descriptor self (self_model self)
          then Some (Model_mismatch (model request) (descriptor self (self_model self)))
          else None)"

text \<open>
  \<^verbatim>\<open>SEMAPHORE = asyncio.Semaphore(1)\<close> is its counter; \<^verbatim>\<open>locked()\<close> holds when
  the counter is zero (nothing ever waits on it: \<^verbatim>\<open>acquire\<close> is reached only when
  it is not locked).
\<close>

definition locked :: "nat \<Rightarrow> bool" where
  "locked sem = (sem = 0)"

text \<open>
  A whole call, consumed to the end with no other call interleaved: the error raised,
  or everything yielded. The semaphore is released on exit, so its counter is unchanged.
\<close>

definition chat_completion ::
  "'m impl \<Rightarrow> nat \<Rightarrow> ChatCompletionRequest \<Rightarrow> 'l TokenResult list
     \<Rightarrow> error + 'l yielded list" where
  "chat_completion self sem request toks =
     (case check_model self request of
        Some e \<Rightarrow> Inl e
      | None \<Rightarrow>
          if locked sem then Inl Busy
          else Inr (session_outputs self request toks))"

section \<open>The method as an asynchronous generator\<close>

text \<open>
  The method is an asynchronous generator: nothing of its body runs before the first
  \<^verbatim>\<open>__anext__\<close>, each resumption runs up to the next \<^verbatim>\<open>yield\<close>, and other
  coroutines of the event loop run only while it is suspended at a \<^verbatim>\<open>yield\<close>. The
  token results do not depend on when they are asked for, so a generator suspended inside
  \<^verbatim>\<open>async with SEMAPHORE\<close> is represented by what it has still to yield.
  \<open>anext\<close> resumes a generator once, given the counter of the semaphore, and returns
  what the consumer sees, the generator afterwards and the counter afterwards.
  Leaving the \<^verbatim>\<open>async with\<close> block releases the semaphore.
\<close>

datatype 'l gen = Fresh | Suspended "'l yielded list" | Closed

datatype 'l resumed = Yield "'l yielded" | Raise error | StopAsyncIteration

definition emit :: "'l yielded list \<Rightarrow> nat \<Rightarrow> 'l resumed \<times> 'l gen \<times> nat" where
  "emit outs sem =
     (case outs of
        [] \<Rightarrow> (StopAsyncIteration, Closed, sem + 1)
      | y # rest \<Rightarrow> (Yield y, Suspended rest, sem))"

definition anext ::
  "'m impl \<Rightarrow> ChatCompletionRequest \<Rightarrow> 'l TokenResult list \<Rightarrow> nat \<Rightarrow> 'l gen
     \<Rightarrow> 'l resumed \<times> 'l gen \<times> nat" where
  "anext self request toks sem g =
     (case g of
        Fresh \<Rightarrow>
          (case check_model self request of
             Some e \<Rightarrow> (Raise e, Closed, sem)
           | None \<Rightarrow>
               if locked sem then (Raise Busy, Closed, sem)
               else emit (session_outputs self request toks) (sem - 1))
      | Suspended outs \<Rightarrow> emit outs sem
      | Closed \<Rightarrow> (StopAsyncIteration, Closed, sem))"

text \<open>The consumer of one call resuming it \<open>n\<close> times in a row.\<close>

fun resume_n ::
  "'m impl \<Rightarrow> ChatCompletionRequest \<Rightarrow> 'l TokenResult list \<Rightarrow> nat \<Rightarrow> nat \<times> 'l gen
     \<Rightarrow> nat \<times> 'l gen" where
  "resume_n self request toks 0 (sem, g) = (sem, g)"
| "resume_n self request toks (Suc n) (sem, g) =
     (case anext self request toks sem g of
        (_, g', sem') \<Rightarrow> resume_n self request toks n (sem', g'))"

section \<open>The generator, token by token\<close>

text \<open>
  The statements from the end of the loop on (lines 156 to 203): what is yielded once the
  token results are exhausted, from the locals the loop leaves.
\<close>

definition finish ::
  "'m impl \<Rightarrow> ChatCompletionRequest \<Rightarrow> 'l locals \<Rightarrow> 'l yielded list" where
  "finish self request s =
     (let sr = resolve_stop_reason (l_stop_reason s);
          message = decode_assistant_message self (l_tokens s) sr
      in if stream request then
           (let parsed_tool_calls = (length (tool_calls message) > 0)
            in (if l_ipython s \<and> \<not> parsed_tool_calls
                then [chunk progress (ToolCallDelta (Str '''') failure) (Some sr)]
                else [])
               @ map (\<lambda>tool_call.
                       chunk progress (ToolCallDelta (Call tool_call) success) (Some sr))
                     (tool_calls message)
               @ [chunk complete (TextDelta '''') (Some sr)])
         else
           [ChatCompletionResponse message
              (if logprobs request then Some (l_logprobs s) else None)])"

text \<open>
  Where the generator is between two resumptions, with the token results it has not
  asked the generation engine for yet: not started; inside the \<^verbatim>\<open>for\<close> loop, with its
  locals and the token results still to come; after the loop, with the chunks still to
  yield; done. (After the \<open>started\<close> chunk the source strips the buffer on the next
  resumption; the locals kept here are the ones after that statement.)
\<close>

datatype 'l coroutine =
    Not_started
  | In_loop "'l locals" "'l TokenResult list"
  | After_loop "'l yielded list"
  | Done

text \<open>Run the loop from its locals up to the next \<^verbatim>\<open>yield\<close>, asking for one token result
  per iteration; an iteration yields at most one chunk.\<close>

fun next_yield ::
  "'m impl \<Rightarrow> ChatCompletionRequest \<Rightarrow> nat \<Rightarrow> 'l locals \<Rightarrow> 'l TokenResult list
     \<Rightarrow> 'l resumed \<times> 'l coroutine \<times> nat" where
  "next_yield self request sem s [] =
     (case finish self request s of
        [] \<Rightarrow> (StopAsyncIteration, Done, sem + 1)
      | y # rest \<Rightarrow> (Yield y, After_loop rest, sem))"
| "next_yield self request sem s (token_result # rest) =
     (case step request s token_result of
        (s', []) \<Rightarrow> next_yield self request sem s' rest
      | (s', y # _) \<Rightarrow> (Yield y, In_loop s' rest, sem))"

definition resume ::
  "'m impl \<Rightarrow> ChatCompletionRequest \<Rightarrow> 'l TokenResult list \<Rightarrow> nat \<Rightarrow> 'l coroutine
     \<Rightarrow> 'l resumed \<times> 'l coroutine \<times> nat" where
  "resume self request toks sem c =
     (case c of
        Not_started \<Rightarrow>
          (case check_model self request of
             Some e \<Rightarrow> (Raise e, Done, sem)
           | None \<Rightarrow>
               if locked sem then (Raise Busy, Done, sem)
               else if stream request then
                 (Yield (chunk start (TextDelta '''') None), In_loop init toks, sem - 1)
               else next_yield self request (sem - 1) init toks)
      | In_loop s rest \<Rightarrow> next_yield self request sem s rest
      | After_loop outs \<Rightarrow>
          (case outs of
             [] \<Rightarrow> (StopAsyncIteration, Done, sem + 1)
           | y # rest \<Rightarrow> (Yield y, After_loop rest, sem))
      | Done \<Rightarrow> (StopAsyncIteration, Done, sem))"

text \<open>What a generator at a given point has still to yield: the state of \<open>anext\<close> that
  stands for it.\<close>

fun pending :: "'m impl \<Rightarrow> ChatCompletionRequest \<Rightarrow> 'l coroutine \<Rightarrow> 'l gen" where
  "pending self request Not_started = Fresh"
| "pending self request (In_loop s rest) =
     Suspended (snd (loop request s rest) @ finish self request (fst (loop request s rest)))"
| "pending self request (After_loop outs) = Suspended outs"
| "pending self request Done = Closed"

section \<open>The stop reason, read off the fragments\<close>

text \<open>
  The stop reason a call is to end with, stated on the texts of the fragments alone:
  that of the last end marker among them, \<open>out_of_tokens\<close> when there is none.
\<close>

definition stop_reason_of_texts :: "string list \<Rightarrow> StopReason" where
  "stop_reason_of_texts texts =
     (case rev (filter (\<lambda>t. t = ''<|eot_id|>'' \<or> t = ''<|eom_id|>'') texts) of
        [] \<Rightarrow> out_of_tokens
      | m # _ \<Rightarrow> if m = ''<|eot_id|>'' then end_of_turn else end_of_message)"

section \<open>Observations on what is yielded\<close>

fun is_event :: "ChatCompletionResponseEventType \<Rightarrow> 'l yielded \<Rightarrow> bool" where
  "is_event ty (ChatCompletionResponseStreamChunk e) = (event_type e = ty)"
| "is_event ty (ChatCompletionResponse m lp) = False"

fun delta_status :: "delta \<Rightarrow> ToolCallParseStatus option" where
  "delta_status (TextDelta t) = None"
| "delta_status (ToolCallDelta c st) = Some st"

fun has_status :: "ToolCallParseStatus \<Rightarrow> 'l yielded \<Rightarrow> bool" where
  "has_status st (ChatCompletionResponseStreamChunk e) = (delta_status (delta e) = Some st)"
| "has_status st (ChatCompletionResponse m lp) = False"

text \<open>The text an event carries as content, if its content is text.\<close>

fun delta_text :: "delta \<Rightarrow> string option" where
  "delta_text (TextDelta t) = Some t"
| "delta_text (ToolCallDelta (Str t) st) = Some t"
| "delta_text (ToolCallDelta (Call c) st) = None"

fun carried_text :: "'l yielded \<Rightarrow> string option" where
  "carried_text (ChatCompletionResponseStreamChunk e) = delta_text (delta e)"
| "carried_text (ChatCompletionResponse m lp) = None"

section \<open>A concrete setting for examples\<close>

text \<open>
  An instance loaded with one model, a resolver that knows two, and a decoder that finds
  one tool call for every token id from 100 on. Token results carry an integer in
  place of a log-probability.
\<close>

definition example_self :: "string impl" where
  "example_self =
     \<lparr>self_model = ''Meta-Llama3.1-8B-Instruct'',
      resolve_model = (\<lambda>name.
         if name = ''Meta-Llama3.1-8B-Instruct'' \<or> name = ''Meta-Llama3.1-70B-Instruct''
         then Some name else None),
      descriptor = (\<lambda>m. m),
      decode_assistant_message = (\<lambda>tokens sr.
         \<lparr>content = [], msg_stop_reason = sr,
          tool_calls = map (\<lambda>t. \<lparr>call_id = [], tool_name = ''foo'', arguments = []\<rparr>)
                         (filter (\<lambda>t. 100 \<le> t) tokens)\<rparr>)\<rparr>"

definition example_request :: "string \<Rightarrow> bool \<Rightarrow> bool \<Rightarrow> ChatCompletionRequest" where
  "example_request name st lp = \<lparr>model = name, stream = st, logprobs = lp\<rparr>"

definition tr :: "int \<Rightarrow> string \<Rightarrow> int TokenResult" where
  "tr t s = \<lparr>token = t, text = s, logprob = - t\<rparr>"

section \<open>Invariants of the loop\<close>

text \<open>
  \<open>no_entry s\<close>: tool-call mode can no longer be entered from \<open>s\<close>, whatever text
  follows. \<open>settled s\<close>: the locals are as the loop leaves them.
\<close>

definition no_entry :: "'l locals \<Rightarrow> bool" where
  "no_entry s = (l_ipython s \<or> (\<forall>t. \<not> prefix python_tag (l_buffer s @ t)))"

definition settled :: "'l locals \<Rightarrow> bool" where
  "settled s =
     ((\<not> l_ipython s \<longrightarrow> \<not> prefix python_tag (l_buffer s)) \<and>
      (l_stop_reason s \<noteq> None \<longrightarrow> no_entry s))"

section \<open>Lemmas about the token loop\<close>

lemma loop_Cons_fst: "fst (loop r s (x # xs)) = fst (loop r (fst (step r s x)) xs)"
  by (simp add: Let_def case_prod_beta)

lemma loop_Cons_snd:
  "snd (loop r s (x # xs)) = snd (step r s x) @ snd (loop r (fst (step r s x)) xs)"
  by (simp add: Let_def case_prod_beta)

lemma loop_append_fst: "fst (loop r s (xs @ ys)) = fst (loop r (fst (loop r s xs)) ys)"
  by (induction xs arbitrary: s) (simp_all add: Let_def case_prod_beta)

lemma loop_append_snd:
  "snd (loop r s (xs @ ys)) = snd (loop r s xs) @ snd (loop r (fst (loop r s xs)) ys)"
  by (induction xs arbitrary: s) (simp_all add: Let_def case_prod_beta)

lemma loop_snoc_fst: "fst (loop r s (xs @ [x])) = fst (step r (fst (loop r s xs)) x)"
  by (simp add: loop_append_fst)

lemma loop_snoc_snd:
  "snd (loop r s (xs @ [x])) = snd (loop r s xs) @ snd (step r (fst (loop r s xs)) x)"
  by (simp add: loop_append_snd)

declare loop.simps(2) [simp del]

declare loop_Cons_fst [simp] loop_Cons_snd [simp]

lemma step_tokens: "l_tokens (fst (step r s x)) = l_tokens s @ [token x]"
  by (simp add: step_def Let_def case_prod_beta)

lemma loop_tokens: "l_tokens (fst (loop r s xs)) = l_tokens s @ map token xs"
  by (induction xs arbitrary: s) (simp_all add: step_tokens)

lemma python_tag_length: "length python_tag = 14"
  by (simp add: python_tag_def)

lemma marker_blocks_tag:
  assumes "\<not> prefix python_tag b" and "m = eot_id \<or> m = eom_id"
  shows "\<not> prefix python_tag (b @ m @ t)"
  using assms
  by (auto simp: prefix_append python_tag_def eot_id_def eom_id_def Cons_eq_append_conv)

text \<open>The four ways through one iteration.\<close>

lemma step_enter:
  assumes "\<not> l_ipython s" and "prefix python_tag (l_buffer s @ text x)"
  shows "step r s x =
           (s\<lparr>l_buffer := drop (length python_tag) (l_buffer s @ text x),
              l_tokens := l_tokens s @ [token x], l_ipython := True\<rparr>,
            [chunk progress (ToolCallDelta (Str '''') started) None])"
  using assms by (simp add: step_def Let_def)

lemma step_nonstream:
  assumes "l_ipython s \<or> \<not> prefix python_tag (l_buffer s @ text x)" and "\<not> stream r"
  shows "step r s x =
           (s\<lparr>l_buffer := l_buffer s @ text x, l_tokens := l_tokens s @ [token x],
              l_logprobs := (if logprobs r then l_logprobs s @ [logprob x] else l_logprobs s)\<rparr>,
            [])"
  using assms by (auto simp add: step_def Let_def)

lemma step_marker:
  assumes "l_ipython s \<or> \<not> prefix python_tag (l_buffer s @ text x)" and "stream r"
    and "text x = eot_id \<or> text x = eom_id"
  shows "step r s x =
           (s\<lparr>l_buffer := l_buffer s @ text x, l_tokens := l_tokens s @ [token x],
              l_stop_reason := Some (if text x = eot_id then end_of_turn else end_of_message)\<rparr>,
            [])"
  using assms by (auto simp add: step_def Let_def eot_id_def eom_id_def)

lemma step_plain:
  assumes "l_ipython s \<or> \<not> prefix python_tag (l_buffer s @ text x)" and "stream r"
    and "text x \<noteq> eot_id" and "text x \<noteq> eom_id"
  shows "step r s x =
           (s\<lparr>l_buffer := l_buffer s @ text x, l_tokens := l_tokens s @ [token x]\<rparr>,
            if l_stop_reason s = None
            then [chunk progress
                   (if l_ipython s then ToolCallDelta (Str (text x)) in_progress
                    else TextDelta (text x)) None]
            else [])"
  using assms by (auto simp add: step_def Let_def)

section \<open>Detection of the tool-call prefix\<close>

text \<open>\<open>c\<close> is all the text received so far.\<close>

lemma step_detect:
  assumes "l_ipython s = prefix python_tag c"
    and "l_buffer s = (if l_ipython s then drop (length python_tag) c else c)"
  shows "l_ipython (fst (step r s x)) = prefix python_tag (c @ text x)"
    and "l_buffer (fst (step r s x)) =
           (if prefix python_tag (c @ text x)
            then drop (length python_tag) (c @ text x) else c @ text x)"
proof -
  have len: "prefix python_tag c \<Longrightarrow> length python_tag \<le> length c"
    by (rule prefix_length_le)
  show "l_ipython (fst (step r s x)) = prefix python_tag (c @ text x)"
    using assms by (auto simp add: step_def Let_def case_prod_beta)
  show "l_buffer (fst (step r s x)) =
           (if prefix python_tag (c @ text x)
            then drop (length python_tag) (c @ text x) else c @ text x)"
    using assms len by (auto simp add: step_def Let_def case_prod_beta)
qed

lemma loop_detect:
  assumes "l_ipython s = prefix python_tag c"
    and "l_buffer s = (if l_ipython s then drop (length python_tag) c else c)"
  shows "l_ipython (fst (loop r s xs)) = prefix python_tag (c @ concat (map text xs)) \<and>
         l_buffer (fst (loop r s xs)) =
           (if prefix python_tag (c @ concat (map text xs))
            then drop (length python_tag) (c @ concat (map text xs))
            else c @ concat (map text xs))"
  using assms
proof (induction xs arbitrary: s c)
  case Nil
  then show ?case by simp
next
  case (Cons x xs)
  have "l_ipython (fst (step r s x)) = prefix python_tag (c @ text x)"
    using Cons.prems by (rule step_detect(1))
  moreover have "l_buffer (fst (step r s x)) =
           (if l_ipython (fst (step r s x))
            then drop (length python_tag) (c @ text x) else c @ text x)"
    using step_detect [OF Cons.prems, of r x] by simp
  ultimately show ?case
    using Cons.IH [of "fst (step r s x)" "c @ text x"]
    by simp
qed

lemma init_detect:
  "l_ipython (fst (loop r init xs)) = prefix python_tag (concat (map text xs))"
  "l_buffer (fst (loop r init xs)) =
     (if prefix python_tag (concat (map text xs))
      then drop (length python_tag) (concat (map text xs))
      else concat (map text xs))"
  using loop_detect [of init "[]" r xs] by (simp_all add: init_def python_tag_def)

lemma step_started_count:
  "length (filter (has_status started) (snd (step r s x))) =
     (if \<not> l_ipython s \<and> prefix python_tag (l_buffer s @ text x) then 1 else 0)"
  by (simp add: step_def Let_def case_prod_beta chunk_def)

lemma step_ipython_mono: "l_ipython s \<Longrightarrow> l_ipython (fst (step r s x))"
  by (simp add: step_def Let_def case_prod_beta)

lemma loop_ipython_mono: "l_ipython s \<Longrightarrow> l_ipython (fst (loop r s xs))"
  by (induction xs arbitrary: s) (simp_all add: step_ipython_mono)

lemma loop_started_count:
  assumes "l_ipython s = prefix python_tag c"
    and "l_buffer s = (if l_ipython s then drop (length python_tag) c else c)"
  shows "length (filter (has_status started) (snd (loop r s xs))) =
           (if \<not> l_ipython s \<and> prefix python_tag (c @ concat (map text xs)) then 1 else 0)"
  using assms
proof (induction xs arbitrary: s c)
  case Nil
  then show ?case by simp
next
  case (Cons x xs)
  let ?s = "fst (step r s x)"
  have 1: "l_ipython ?s = prefix python_tag (c @ text x)"
    using Cons.prems by (rule step_detect(1))
  have 2: "l_buffer ?s =
           (if l_ipython ?s then drop (length python_tag) (c @ text x) else c @ text x)"
    using step_detect [OF Cons.prems, of r x] by simp
  have 3: "length (filter (has_status started) (snd (loop r ?s xs))) =
           (if \<not> l_ipython ?s \<and> prefix python_tag ((c @ text x) @ concat (map text xs))
            then 1 else 0)"
    using 1 2 by (rule Cons.IH)
  have 4: "\<not> l_ipython s \<Longrightarrow> l_buffer s @ text x = c @ text x"
    using Cons.prems by simp
  have 5: "prefix python_tag (c @ text x) \<Longrightarrow> prefix python_tag (c @ text x @ concat (map text xs))"
    by (metis append.assoc prefix_prefix)
  show ?case
    using 1 3 4 5 Cons.prems(1)
    by (auto simp add: step_started_count)
qed

section \<open>What the loop yields\<close>

lemma step_events_progress: "\<forall>p \<in> set (snd (step r s x)). is_event progress p"
  by (simp add: step_def Let_def case_prod_beta chunk_def)

lemma loop_events_progress: "\<forall>p \<in> set (snd (loop r s xs)). is_event progress p"
  by (induction xs arbitrary: s) (auto dest: step_events_progress [rule_format])

lemma step_events_status:
  "\<forall>p \<in> set (snd (step r s x)). \<not> has_status failure p \<and> \<not> has_status success p"
  by (simp add: step_def Let_def case_prod_beta chunk_def)

lemma loop_events_status:
  "\<forall>p \<in> set (snd (loop r s xs)). \<not> has_status failure p \<and> \<not> has_status success p"
  by (induction xs arbitrary: s) (auto dest: step_events_status [rule_format])

lemma step_events_text:
  "\<forall>p \<in> set (snd (step r s x)). carried_text p \<noteq> Some eot_id \<and> carried_text p \<noteq> Some eom_id"
  by (auto simp add: step_def Let_def case_prod_beta chunk_def eot_id_def eom_id_def)

lemma loop_events_text:
  "\<forall>p \<in> set (snd (loop r s xs)). carried_text p \<noteq> Some eot_id \<and> carried_text p \<noteq> Some eom_id"
  by (induction xs arbitrary: s) (auto dest: step_events_text [rule_format])

lemma step_nonstream_stop: "\<not> stream r \<Longrightarrow> l_stop_reason (fst (step r s x)) = l_stop_reason s"
  by (simp add: step_def Let_def case_prod_beta)

lemma loop_nonstream_stop: "\<not> stream r \<Longrightarrow> l_stop_reason (fst (loop r s xs)) = l_stop_reason s"
  by (induction xs arbitrary: s) (simp_all add: step_nonstream_stop)

section \<open>Once a stop reason is set\<close>

lemma settled_init: "settled init"
  by (simp add: settled_def init_def python_tag_def)

lemma no_entry_step:
  assumes "no_entry s"
  shows "no_entry (fst (step r s x))"
  using assms by (auto simp add: no_entry_def step_def Let_def case_prod_beta)

lemma settled_step:
  assumes "settled s"
  shows "settled (fst (step r s x))"
proof (cases "\<not> l_ipython s \<and> prefix python_tag (l_buffer s @ text x)")
  case True
  then show ?thesis
    by (simp add: step_enter settled_def no_entry_def)
next
  case False
  note no = this
  show ?thesis
  proof (cases "stream r")
    case False
    with no assms show ?thesis
      using no_entry_step [of s r x]
      by (auto simp add: step_nonstream settled_def no_entry_def)
  next
    case True
    note st = this
    show ?thesis
    proof (cases "text x = eot_id \<or> text x = eom_id")
      case True
      have "\<not> l_ipython s \<Longrightarrow> \<not> prefix python_tag (l_buffer s @ text x @ t)" for t
        using assms True marker_blocks_tag [of "l_buffer s" "text x" t]
        by (simp add: settled_def)
      with no st True show ?thesis
        by (auto simp add: step_marker settled_def no_entry_def)
    next
      case False
      with no st assms show ?thesis
        using no_entry_step [of s r x]
        by (auto simp add: step_plain settled_def no_entry_def)
    qed
  qed
qed

lemma settled_loop: "settled s \<Longrightarrow> settled (fst (loop r s xs))"
  by (induction xs arbitrary: s) (simp_all add: settled_step)

lemma stopped_step:
  assumes "stream r" and "l_stop_reason s \<noteq> None" and "no_entry s"
  shows "snd (step r s x) = []" and "l_stop_reason (fst (step r s x)) \<noteq> None"
  using assms by (auto simp add: no_entry_def step_def Let_def case_prod_beta)

lemma stopped_loop:
  assumes "stream r" and "l_stop_reason s \<noteq> None" and "no_entry s"
  shows "snd (loop r s xs) = [] \<and> l_stop_reason (fst (loop r s xs)) \<noteq> None"
  using assms
proof (induction xs arbitrary: s)
  case Nil
  then show ?case by simp
next
  case (Cons x xs)
  have "l_stop_reason (fst (step r s x)) \<noteq> None" "no_entry (fst (step r s x))"
       "snd (step r s x) = []"
    using Cons.prems by (simp_all add: stopped_step no_entry_step)
  then show ?case
    using Cons.IH [of "fst (step r s x)"] Cons.prems(1) by simp
qed

lemma marker_step:
  assumes "stream r" and "settled s" and "text x = eot_id \<or> text x = eom_id"
  shows "step r s x =
           (s\<lparr>l_buffer := l_buffer s @ text x, l_tokens := l_tokens s @ [token x],
              l_stop_reason := Some (if text x = eot_id then end_of_turn else end_of_message)\<rparr>,
            [])"
proof -
  have "l_ipython s \<or> \<not> prefix python_tag (l_buffer s @ text x)"
    using assms(2,3) marker_blocks_tag [of "l_buffer s" "text x" "[]"]
    by (auto simp add: settled_def)
  then show ?thesis
    using assms(1,3) by (rule step_marker)
qed

section \<open>Claims about the token loop\<close>

text \<open>
  C6. In every session, streaming or not, tool-call mode is entered exactly when the
  text of all fragments received so far, taken together from the start, begins with
  \<^verbatim>\<open><|python_tag|>\<close>: a match that spans fragments is found. The mode is entered at
  most once, since every entry yields one chunk of status \<open>started\<close> and there is one
  such chunk if the mode is entered and none otherwise. The prefix is stripped from the
  buffer exactly once: the buffer ends as the whole text without its first occurrence.
\<close>

theorem tool_call_prefix_detected_once:
  "l_ipython (fst (loop request init toks)) = prefix python_tag (concat (map text toks)) \<and>
   l_buffer (fst (loop request init toks)) =
     (if prefix python_tag (concat (map text toks))
      then drop (length python_tag) (concat (map text toks))
      else concat (map text toks)) \<and>
   length (filter (has_status started) (snd (loop request init toks))) =
     (if prefix python_tag (concat (map text toks)) then 1 else 0)"
proof -
  have tag: "python_tag \<noteq> []"
    by (simp add: python_tag_def)
  have "\<not> l_ipython (init :: 'a locals)" and "l_buffer (init :: 'a locals) = []"
    by (simp_all add: init_def)
  then have "length (filter (has_status started) (snd (loop request init toks))) =
     (if prefix python_tag (concat (map text toks)) then 1 else 0)"
    using tag loop_started_count [of init "[]" request toks] by simp
  then show ?thesis
    using init_detect [of request toks] by simp
qed

theorem tool_call_prefix_detected_once_witness:
  "l_ipython (fst (loop \<lparr>model = ''m'', stream = True, logprobs = False\<rparr> init
     [\<lparr>token = 1, text = ''<|python'', logprob = (0::int)\<rparr>,
      \<lparr>token = 2, text = ''_tag|><|python_tag|>x'', logprob = 0\<rparr>,
      \<lparr>token = 3, text = ''y'', logprob = 0\<rparr>])) \<and>
   l_buffer (fst (loop \<lparr>model = ''m'', stream = True, logprobs = False\<rparr> init
     [\<lparr>token = 1, text = ''<|python'', logprob = (0::int)\<rparr>,
      \<lparr>token = 2, text = ''_tag|><|python_tag|>x'', logprob = 0\<rparr>,
      \<lparr>token = 3, text = ''y'', logprob = 0\<rparr>])) = ''<|python_tag|>xy''"
  using tool_call_prefix_detected_once [of "\<lparr>model = ''m'', stream = True, logprobs = False\<rparr>"
     "[\<lparr>token = 1, text = ''<|python'', logprob = (0::int)\<rparr>,
      \<lparr>token = 2, text = ''_tag|><|python_tag|>x'', logprob = 0\<rparr>,
      \<lparr>token = 3, text = ''y'', logprob = 0\<rparr>]"]
  by (simp add: python_tag_def)

text \<open>
  C8. In a streaming session, once the stop reason is set the rest of the loop yields
  nothing; a fragment that is an end marker yields nothing; and every fragment's token
  is appended to the token list all the same.
\<close>

theorem no_progress_after_stop_reason:
  assumes "stream request"
  shows "(l_stop_reason (fst (loop request init xs)) \<noteq> None \<longrightarrow>
            snd (loop request init (xs @ ys)) = snd (loop request init xs)) \<and>
         (text x = eot_id \<or> text x = eom_id \<longrightarrow>
            snd (loop request init (xs @ [x])) = snd (loop request init xs)) \<and>
         l_tokens (fst (loop request init (xs @ ys))) = map token (xs @ ys)"
proof (intro conjI impI)
  have st: "settled (fst (loop request init xs))"
    by (simp add: settled_loop settled_init)
  show "snd (loop request init (xs @ ys)) = snd (loop request init xs)"
    if "l_stop_reason (fst (loop request init xs)) \<noteq> None"
  proof -
    have "no_entry (fst (loop request init xs))"
      using st that by (simp add: settled_def)
    then have "snd (loop request (fst (loop request init xs)) ys) = []"
      using stopped_loop [OF assms that] by simp
    then show ?thesis
      by (simp add: loop_append_snd)
  qed
  show "snd (loop request init (xs @ [x])) = snd (loop request init xs)"
    if "text x = eot_id \<or> text x = eom_id"
    using marker_step [OF assms st that] by (simp add: loop_snoc_snd)
  show "l_tokens (fst (loop request init (xs @ ys))) = map token (xs @ ys)"
    by (simp add: loop_tokens init_def)
qed

theorem no_progress_after_stop_reason_witness:
  "stream \<lparr>model = ''m'', stream = True, logprobs = False\<rparr> \<and>
   l_stop_reason (fst (loop \<lparr>model = ''m'', stream = True, logprobs = False\<rparr> init
     [\<lparr>token = 1, text = ''a'', logprob = (0::int)\<rparr>,
      \<lparr>token = 2, text = ''<|eot_id|>'', logprob = 0\<rparr>])) \<noteq> None \<and>
   text \<lparr>token = 4, text = ''<|eom_id|>'', logprob = (0::int)\<rparr> = eom_id \<and>
   snd (loop \<lparr>model = ''m'', stream = True, logprobs = False\<rparr> init
     ([\<lparr>token = 1, text = ''a'', logprob = (0::int)\<rparr>,
       \<lparr>token = 2, text = ''<|eot_id|>'', logprob = 0\<rparr>] @
      [\<lparr>token = 3, text = ''b'', logprob = 0\<rparr>])) =
   snd (loop \<lparr>model = ''m'', stream = True, logprobs = False\<rparr> init
     [\<lparr>token = 1, text = ''a'', logprob = (0::int)\<rparr>,
      \<lparr>token = 2, text = ''<|eot_id|>'', logprob = 0\<rparr>]) \<and>
   snd (loop \<lparr>model = ''m'', stream = True, logprobs = False\<rparr> init
     ([\<lparr>token = 1, text = ''a'', logprob = (0::int)\<rparr>,
       \<lparr>token = 2, text = ''<|eot_id|>'', logprob = 0\<rparr>] @
      [\<lparr>token = 4, text = ''<|eom_id|>'', logprob = 0\<rparr>])) =
   snd (loop \<lparr>model = ''m'', stream = True, logprobs = False\<rparr> init
     [\<lparr>token = 1, text = ''a'', logprob = (0::int)\<rparr>,
      \<lparr>token = 2, text = ''<|eot_id|>'', logprob = 0\<rparr>]) \<and>
   l_tokens (fst (loop \<lparr>model = ''m'', stream = True, logprobs = False\<rparr> init
     ([\<lparr>token = 1, text = ''a'', logprob = (0::int)\<rparr>,
       \<lparr>token = 2, text = ''<|eot_id|>'', logprob = 0\<rparr>] @
      [\<lparr>token = 3, text = ''b'', logprob = 0\<rparr>]))) = [1, 2, 3]"
proof -
  let ?r = "\<lparr>model = ''m'', stream = True, logprobs = False\<rparr>"
  let ?xs = "[\<lparr>token = 1, text = ''a'', logprob = (0::int)\<rparr>,
              \<lparr>token = 2, text = ''<|eot_id|>'', logprob = 0\<rparr>]"
  let ?ys = "[\<lparr>token = 3, text = ''b'', logprob = (0::int)\<rparr>]"
  let ?x = "\<lparr>token = 4, text = ''<|eom_id|>'', logprob = (0::int)\<rparr>"
  have h1: "stream ?r" by simp
  have h2: "l_stop_reason (fst (loop ?r init ?xs)) \<noteq> None"
    by (simp add: step_def init_def python_tag_def eot_id_def eom_id_def)
  have h3: "text ?x = eom_id" by (simp add: eom_id_def)
  show ?thesis
    using h1 h2 h3 no_progress_after_stop_reason [OF h1, of ?xs ?ys ?x]
    by simp
qed

section \<open>The whole call\<close>

lemma init_tokens: "l_tokens (fst (loop request init toks)) = map token toks"
  by (simp add: loop_tokens init_def)

lemma session_outputs_stream:
  assumes "stream request"
  shows "session_outputs self request toks =
     chunk start (TextDelta []) None # snd (loop request init toks) @
     (if l_ipython (fst (loop request init toks)) \<and>
         tool_calls (decode_assistant_message self (map token toks)
            (resolve_stop_reason (l_stop_reason (fst (loop request init toks))))) = []
      then [chunk progress (ToolCallDelta (Str []) failure)
              (Some (resolve_stop_reason (l_stop_reason (fst (loop request init toks)))))]
      else []) @
     map (\<lambda>tool_call. chunk progress (ToolCallDelta (Call tool_call) success)
             (Some (resolve_stop_reason (l_stop_reason (fst (loop request init toks))))))
         (tool_calls (decode_assistant_message self (map token toks)
            (resolve_stop_reason (l_stop_reason (fst (loop request init toks)))))) @
     [chunk complete (TextDelta [])
        (Some (resolve_stop_reason (l_stop_reason (fst (loop request init toks)))))]"
  using assms init_tokens [of request toks]
  by (simp add: session_outputs_def Let_def case_prod_beta)

lemma session_outputs_nonstream:
  assumes "\<not> stream request"
  shows "session_outputs self request toks =
     snd (loop request init toks) @
     [ChatCompletionResponse
        (decode_assistant_message self (map token toks) out_of_tokens)
        (if logprobs request then Some (l_logprobs (fst (loop request init toks))) else None)]"
proof -
  have "l_stop_reason (fst (loop request init toks)) = None"
    using assms loop_nonstream_stop [of request init toks] by (simp add: init_def)
  then show ?thesis
    using assms init_tokens [of request toks]
    by (simp add: session_outputs_def Let_def case_prod_beta resolve_stop_reason_def)
qed

lemma chat_completion_Inr:
  "chat_completion self sem request toks = Inr outs \<longleftrightarrow>
     check_model self request = None \<and> \<not> locked sem \<and> outs = session_outputs self request toks"
  by (auto simp add: chat_completion_def split: option.splits)

lemma filter_none: "(\<forall>p \<in> set ps. \<not> P p) \<Longrightarrow> filter P ps = []"
  by (induction ps) simp_all

lemma progress_not_start: "is_event progress p \<Longrightarrow> \<not> is_event start p"
  by (cases p) simp_all

lemma progress_not_complete: "is_event progress p \<Longrightarrow> \<not> is_event complete p"
  by (cases p) simp_all

lemma loop_no_start: "filter (is_event start) (snd (loop r s xs)) = []"
  using loop_events_progress [of r s xs] by (intro filter_none) (blast dest: progress_not_start)

lemma loop_no_complete: "filter (is_event complete) (snd (loop r s xs)) = []"
  using loop_events_progress [of r s xs] by (intro filter_none) (blast dest: progress_not_complete)

lemma loop_no_failure: "filter (has_status failure) (snd (loop r s xs)) = []"
  using loop_events_status [of r s xs] by (intro filter_none) blast

lemma loop_no_success: "filter (has_status success) (snd (loop r s xs)) = []"
  using loop_events_status [of r s xs] by (intro filter_none) blast

text \<open>The equations that run a call on concrete token results.\<close>

lemmas run_simps =
  chat_completion_def check_model_def locked_def example_self_def example_request_def
  session_outputs_def step_def init_def tr_def python_tag_def eot_id_def eom_id_def
  resolve_stop_reason_def Let_def case_prod_beta

section \<open>Claims about the events of a streaming call\<close>

lemma is_event_chunk [simp]: "is_event ty (chunk ty' d sr) = (ty' = ty)"
  by (simp add: chunk_def)

lemma has_status_chunk [simp]: "has_status st (chunk ty d sr) = (delta_status d = Some st)"
  by (simp add: chunk_def)

lemma carried_text_chunk [simp]: "carried_text (chunk ty d sr) = delta_text d"
  by (simp add: chunk_def)

text \<open>
  C5. In a streaming call that entered tool-call mode, what is yielded ends with one
  chunk of status \<open>failure\<close> and the complete event if the decoded message has no
  tool call, and with one chunk of status \<open>success\<close> per tool call, in order, and the
  complete event otherwise; nothing yielded before has either status. So there is
  exactly one failure chunk for zero tool calls, none otherwise, and exactly as many
  success chunks as tool calls.
\<close>

theorem tool_call_outcome_events:
  assumes "stream request"
    and "chat_completion self sem request toks = Inr outs"
    and "l_ipython (fst (loop request init toks))"
  shows "\<exists>pre. outs = pre @
            (if tool_calls (decode_assistant_message self (map token toks)
                  (resolve_stop_reason (l_stop_reason (fst (loop request init toks))))) = []
             then [chunk progress (ToolCallDelta (Str []) failure)
                    (Some (resolve_stop_reason (l_stop_reason (fst (loop request init toks)))))]
             else map (\<lambda>tool_call. chunk progress (ToolCallDelta (Call tool_call) success)
                    (Some (resolve_stop_reason (l_stop_reason (fst (loop request init toks))))))
                  (tool_calls (decode_assistant_message self (map token toks)
                    (resolve_stop_reason (l_stop_reason (fst (loop request init toks))))))) @
            [chunk complete (TextDelta [])
               (Some (resolve_stop_reason (l_stop_reason (fst (loop request init toks)))))] \<and>
          (\<forall>p \<in> set pre. \<not> has_status failure p \<and> \<not> has_status success p) \<and>
          length (filter (has_status failure) outs) =
            (if tool_calls (decode_assistant_message self (map token toks)
                  (resolve_stop_reason (l_stop_reason (fst (loop request init toks))))) = []
             then 1 else 0) \<and>
          length (filter (has_status success) outs) =
            length (tool_calls (decode_assistant_message self (map token toks)
                  (resolve_stop_reason (l_stop_reason (fst (loop request init toks))))))"
proof -
  let ?sr = "resolve_stop_reason (l_stop_reason (fst (loop request init toks)))"
  let ?tcs = "tool_calls (decode_assistant_message self (map token toks) ?sr)"
  let ?pre = "chunk start (TextDelta []) None # snd (loop request init toks)"
  let ?mid = "if ?tcs = [] then [chunk progress (ToolCallDelta (Str []) failure) (Some ?sr)]
              else map (\<lambda>tool_call. chunk progress (ToolCallDelta (Call tool_call) success)
                          (Some ?sr)) ?tcs"
  have outs: "outs = ?pre @ ?mid @ [chunk complete (TextDelta []) (Some ?sr)]"
    using assms session_outputs_stream [OF assms(1), of self toks]
    by (simp add: chat_completion_Inr)
  have pre: "\<forall>p \<in> set ?pre. \<not> has_status failure p \<and> \<not> has_status success p"
    using loop_events_status [of request init toks] by (simp add: chunk_def)
  have succ: "filter (has_status success)
          (map (\<lambda>tool_call. chunk progress (ToolCallDelta (Call tool_call) success) (Some ?sr)) tcs) =
        map (\<lambda>tool_call. chunk progress (ToolCallDelta (Call tool_call) success) (Some ?sr)) tcs"
    for tcs
    by (induction tcs) (simp_all add: chunk_def)
  have nofail: "filter (has_status failure)
          (map (\<lambda>tool_call. chunk progress (ToolCallDelta (Call tool_call) success) (Some ?sr)) tcs) = []"
    for tcs
    by (induction tcs) (simp_all add: chunk_def)
  have f: "length (filter (has_status failure) outs) = (if ?tcs = [] then 1 else 0)"
    using nofail [of ?tcs]
    by (simp add: outs loop_no_failure)
  have "length (filter (has_status success)
          (map (\<lambda>tool_call. chunk progress (ToolCallDelta (Call tool_call) success) (Some ?sr)) ?tcs)) =
        length ?tcs"
    by (simp only: succ length_map)
  then have s: "length (filter (has_status success) outs) = length ?tcs"
    by (simp add: outs loop_no_success)
  from outs pre f s show ?thesis
    by blast
qed

theorem tool_call_outcome_events_witness:
  "stream (example_request ''Meta-Llama3.1-8B-Instruct'' True False) \<and>
   chat_completion example_self 1 (example_request ''Meta-Llama3.1-8B-Instruct'' True False)
       [tr 1 ''<|python_tag|>'', tr 2 ''foo('', tr 3 ''1)'', tr 4 ''<|eot_id|>''] =
     Inr [chunk start (TextDelta []) None,
          chunk progress (ToolCallDelta (Str []) started) None,
          chunk progress (ToolCallDelta (Str ''foo('') in_progress) None,
          chunk progress (ToolCallDelta (Str ''1)'') in_progress) None,
          chunk progress (ToolCallDelta (Str []) failure) (Some end_of_turn),
          chunk complete (TextDelta []) (Some end_of_turn)] \<and>
   l_ipython (fst (loop (example_request ''Meta-Llama3.1-8B-Instruct'' True False) init
       [tr 1 ''<|python_tag|>'', tr 2 ''foo('', tr 3 ''1)'', tr 4 ''<|eot_id|>''])) \<and>
   length (filter (has_status failure)
     [chunk start (TextDelta []) None,
      chunk progress (ToolCallDelta (Str []) started) None,
      chunk progress (ToolCallDelta (Str ''foo('') in_progress) None,
      chunk progress (ToolCallDelta (Str ''1)'') in_progress) None,
      chunk progress (ToolCallDelta (Str []) failure) (Some end_of_turn),
      chunk complete (TextDelta []) (Some end_of_turn) :: int yielded]) = 1 \<and>
   chat_completion example_self 1 (example_request ''Meta-Llama3.1-8B-Instruct'' True False)
       [tr 1 ''<|python_tag|>'', tr 100 ''foo('', tr 101 ''1)'', tr 4 ''<|eot_id|>''] =
     Inr [chunk start (TextDelta []) None,
          chunk progress (ToolCallDelta (Str []) started) None,
          chunk progress (ToolCallDelta (Str ''foo('') in_progress) None,
          chunk progress (ToolCallDelta (Str ''1)'') in_progress) None,
          chunk progress (ToolCallDelta
             (Call \<lparr>call_id = [], tool_name = ''foo'', arguments = []\<rparr>) success)
             (Some end_of_turn),
          chunk progress (ToolCallDelta
             (Call \<lparr>call_id = [], tool_name = ''foo'', arguments = []\<rparr>) success)
             (Some end_of_turn),
          chunk complete (TextDelta []) (Some end_of_turn)] \<and>
   l_ipython (fst (loop (example_request ''Meta-Llama3.1-8B-Instruct'' True False) init
       [tr 1 ''<|python_tag|>'', tr 100 ''foo('', tr 101 ''1)'', tr 4 ''<|eot_id|>''])) \<and>
   length (filter (has_status success)
     [chunk start (TextDelta []) None,
      chunk progress (ToolCallDelta (Str []) started) None,
      chunk progress (ToolCallDelta (Str ''foo('') in_progress) None,
      chunk progress (ToolCallDelta (Str ''1)'') in_progress) None,
      chunk progress (ToolCallDelta
         (Call \<lparr>call_id = [], tool_name = ''foo'', arguments = []\<rparr>) success)
         (Some end_of_turn),
      chunk progress (ToolCallDelta
         (Call \<lparr>call_id = [], tool_name = ''foo'', arguments = []\<rparr>) success)
         (Some end_of_turn),
      chunk complete (TextDelta []) (Some end_of_turn) :: int yielded]) = 2"
proof -
  let ?r = "example_request ''Meta-Llama3.1-8B-Instruct'' True False"
  let ?t0 = "[tr 1 ''<|python_tag|>'', tr 2 ''foo('', tr 3 ''1)'', tr 4 ''<|eot_id|>'']"
  let ?t2 = "[tr 1 ''<|python_tag|>'', tr 100 ''foo('', tr 101 ''1)'', tr 4 ''<|eot_id|>'']"
  let ?o0 = "[chunk start (TextDelta []) None,
          chunk progress (ToolCallDelta (Str []) started) None,
          chunk progress (ToolCallDelta (Str ''foo('') in_progress) None,
          chunk progress (ToolCallDelta (Str ''1)'') in_progress) None,
          chunk progress (ToolCallDelta (Str []) failure) (Some end_of_turn),
          chunk complete (TextDelta []) (Some end_of_turn)] :: int yielded list"
  let ?o2 = "[chunk start (TextDelta []) None,
          chunk progress (ToolCallDelta (Str []) started) None,
          chunk progress (ToolCallDelta (Str ''foo('') in_progress) None,
          chunk progress (ToolCallDelta (Str ''1)'') in_progress) None,
          chunk progress (ToolCallDelta
             (Call \<lparr>call_id = [], tool_name = ''foo'', arguments = []\<rparr>) success)
             (Some end_of_turn),
          chunk progress (ToolCallDelta
             (Call \<lparr>call_id = [], tool_name = ''foo'', arguments = []\<rparr>) success)
             (Some end_of_turn),
          chunk complete (TextDelta []) (Some end_of_turn)] :: int yielded list"
  have h1: "stream ?r"
    by (simp add: example_request_def)
  have a2: "chat_completion example_self 1 ?r ?t0 = Inr ?o0"
    by (simp add: run_simps)
  have a3: "l_ipython (fst (loop ?r init ?t0))"
    by (simp add: run_simps)
  have b2: "chat_completion example_self 1 ?r ?t2 = Inr ?o2"
    by (simp add: run_simps)
  have b3: "l_ipython (fst (loop ?r init ?t2))"
    by (simp add: run_simps)
  have d0: "tool_calls (decode_assistant_message example_self (map token ?t0)
              (resolve_stop_reason (l_stop_reason (fst (loop ?r init ?t0))))) = []"
    by (simp add: run_simps)
  have d2: "length (tool_calls (decode_assistant_message example_self (map token ?t2)
              (resolve_stop_reason (l_stop_reason (fst (loop ?r init ?t2)))))) = 2"
    by (simp add: run_simps)
  have "length (filter (has_status failure) ?o0) = 1"
    using tool_call_outcome_events [OF h1 a2 a3] d0 by (elim exE conjE) simp
  moreover have "length (filter (has_status success) ?o2) = 2"
    using tool_call_outcome_events [OF h1 b2 b3] d2 by (elim exE conjE) simp
  ultimately show ?thesis
    using h1 a2 a3 b2 b3 by simp
qed

text \<open>
  C10. In a streaming call that never entered tool-call mode, the loop's chunks are
  followed by one chunk of status \<open>success\<close> for each tool call of the decoded
  message, in order, and by the complete event: the success chunks do not depend on
  the flag. No chunk of status \<open>failure\<close> is yielded, even for zero tool calls.
\<close>

theorem success_events_without_tool_call_mode:
  assumes "stream request"
    and "chat_completion self sem request toks = Inr outs"
    and "\<not> l_ipython (fst (loop request init toks))"
  shows "outs = chunk start (TextDelta []) None # snd (loop request init toks) @
            map (\<lambda>tool_call. chunk progress (ToolCallDelta (Call tool_call) success)
                   (Some (resolve_stop_reason (l_stop_reason (fst (loop request init toks))))))
                (tool_calls (decode_assistant_message self (map token toks)
                   (resolve_stop_reason (l_stop_reason (fst (loop request init toks)))))) @
            [chunk complete (TextDelta [])
               (Some (resolve_stop_reason (l_stop_reason (fst (loop request init toks)))))] \<and>
         filter (has_status success) outs =
            map (\<lambda>tool_call. chunk progress (ToolCallDelta (Call tool_call) success)
                   (Some (resolve_stop_reason (l_stop_reason (fst (loop request init toks))))))
                (tool_calls (decode_assistant_message self (map token toks)
                   (resolve_stop_reason (l_stop_reason (fst (loop request init toks)))))) \<and>
         filter (has_status failure) outs = []"
proof -
  let ?sr = "resolve_stop_reason (l_stop_reason (fst (loop request init toks)))"
  let ?tcs = "tool_calls (decode_assistant_message self (map token toks) ?sr)"
  have outs: "outs = chunk start (TextDelta []) None # snd (loop request init toks) @
            map (\<lambda>tool_call. chunk progress (ToolCallDelta (Call tool_call) success) (Some ?sr)) ?tcs @
            [chunk complete (TextDelta []) (Some ?sr)]"
    using assms session_outputs_stream [OF assms(1), of self toks]
    by (simp add: chat_completion_Inr)
  have succ: "filter (has_status success)
          (map (\<lambda>tool_call. chunk progress (ToolCallDelta (Call tool_call) success) (Some ?sr)) tcs) =
        map (\<lambda>tool_call. chunk progress (ToolCallDelta (Call tool_call) success) (Some ?sr)) tcs"
    for tcs
    by (induction tcs) simp_all
  have nofail: "filter (has_status failure)
          (map (\<lambda>tool_call. chunk progress (ToolCallDelta (Call tool_call) success) (Some ?sr)) tcs) = []"
    for tcs
    by (induction tcs) simp_all
  have s: "filter (has_status success) outs =
        map (\<lambda>tool_call. chunk progress (ToolCallDelta (Call tool_call) success) (Some ?sr)) ?tcs"
    by (subst outs) (simp add: loop_no_success succ)
  have f: "filter (has_status failure) outs = []"
    by (subst outs) (simp add: loop_no_failure nofail)
  from outs s f show ?thesis
    by blast
qed

theorem success_events_without_tool_call_mode_witness:
  "stream (example_request ''Meta-Llama3.1-8B-Instruct'' True False) \<and>
   chat_completion example_self 1 (example_request ''Meta-Llama3.1-8B-Instruct'' True False)
       [tr 100 ''hi'', tr 2 ''<|eom_id|>''] =
     Inr [chunk start (TextDelta []) None,
          chunk progress (TextDelta ''hi'') None,
          chunk progress (ToolCallDelta
             (Call \<lparr>call_id = [], tool_name = ''foo'', arguments = []\<rparr>) success)
             (Some end_of_message),
          chunk complete (TextDelta []) (Some end_of_message)] \<and>
   \<not> l_ipython (fst (loop (example_request ''Meta-Llama3.1-8B-Instruct'' True False) init
       [tr 100 ''hi'', tr 2 ''<|eom_id|>''])) \<and>
   filter (has_status success)
     [chunk start (TextDelta []) None,
      chunk progress (TextDelta ''hi'') None,
      chunk progress (ToolCallDelta
         (Call \<lparr>call_id = [], tool_name = ''foo'', arguments = []\<rparr>) success)
         (Some end_of_message),
      chunk complete (TextDelta []) (Some end_of_message) :: int yielded] =
     [chunk progress (ToolCallDelta
         (Call \<lparr>call_id = [], tool_name = ''foo'', arguments = []\<rparr>) success)
         (Some end_of_message)]"
proof -
  let ?r = "example_request ''Meta-Llama3.1-8B-Instruct'' True False"
  let ?t = "[tr 100 ''hi'', tr 2 ''<|eom_id|>'']"
  let ?o = "[chunk start (TextDelta []) None,
          chunk progress (TextDelta ''hi'') None,
          chunk progress (ToolCallDelta
             (Call \<lparr>call_id = [], tool_name = ''foo'', arguments = []\<rparr>) success)
             (Some end_of_message),
          chunk complete (TextDelta []) (Some end_of_message)] :: int yielded list"
  have h1: "stream ?r"
    by (simp add: example_request_def)
  have h2: "chat_completion example_self 1 ?r ?t = Inr ?o"
    by (simp add: run_simps)
  have h3: "\<not> l_ipython (fst (loop ?r init ?t))"
    by (simp add: run_simps)
  have "filter (has_status success) ?o =
     [chunk progress (ToolCallDelta
         (Call \<lparr>call_id = [], tool_name = ''foo'', arguments = []\<rparr>) success)
         (Some end_of_message)]"
    using conjunct1 [OF conjunct2 [OF success_events_without_tool_call_mode [OF h1 h2 h3]]]
    by (simp add: run_simps)
  then show ?thesis
    using h1 h2 h3 by simp
qed

section \<open>Admission: the model check and the semaphore\<close>

lemma session_outputs_not_Nil: "session_outputs self request toks \<noteq> []"
  by (cases "stream request") (simp_all add: session_outputs_stream session_outputs_nonstream)

lemma resume_n_Closed: "resume_n self request toks n (sem, Closed) = (sem, Closed)"
  by (induction n) (simp_all add: anext_def)

lemma resume_n_Suspended:
  "resume_n self request toks n (sem, Suspended outs) =
     (if n \<le> length outs then (sem, Suspended (drop n outs)) else (sem + 1, Closed))"
proof (induction n arbitrary: outs)
  case 0
  show ?case by simp
next
  case (Suc n)
  show ?case
  proof (cases outs)
    case Nil
    then show ?thesis
      by (simp add: anext_def emit_def resume_n_Closed)
  next
    case (Cons y rest)
    then show ?thesis
      using Suc.IH [of rest] by (simp add: anext_def emit_def)
  qed
qed

text \<open>A call started on the free semaphore and resumed at least once is either still
  suspended, holding the permit, or closed, with the permit given back.\<close>

lemma resume_n_Fresh:
  "resume_n self request toks (Suc n) (1, Fresh) =
     (if check_model self request = None \<and> n < length (session_outputs self request toks)
      then (0, Suspended (drop (Suc n) (session_outputs self request toks)))
      else (1, Closed))"
proof (cases "check_model self request")
  case (Some e)
  then show ?thesis
    by (simp add: anext_def resume_n_Closed)
next
  case None
  obtain y rest where outs: "session_outputs self request toks = y # rest"
    using session_outputs_not_Nil [of self request toks] by (cases "session_outputs self request toks") auto
  show ?thesis
    using None outs by (auto simp add: anext_def emit_def locked_def resume_n_Suspended)
qed

lemma call_releases_permit:
  assumes "chat_completion self 1 request toks = Inr outs"
  shows "resume_n self request toks (Suc (length outs)) (1, Fresh) = (1, Closed)"
  using assms resume_n_Fresh [of self request toks "length outs"]
  by (simp add: chat_completion_Inr del: resume_n.simps)

text \<open>
  C9. A request whose model the resolver does not know, or whose resolved descriptor
  differs from that of the loaded model, fails with the model error whatever the
  counter of the semaphore is, also when it is locked: the error is not \<open>Busy\<close>, the
  first resumption raises it and closes the generator without yielding, and the
  counter is not touched.
\<close>

theorem model_error_before_gate:
  assumes "resolve_model self (model request) = None \<or>
           (\<exists>m. resolve_model self (model request) = Some m \<and>
                descriptor self m \<noteq> descriptor self (self_model self))"
  shows "\<exists>e. e = (if resolve_model self (model request) = None
                  then Unknown_model (model request)
                  else Model_mismatch (model request) (descriptor self (self_model self))) \<and>
             e \<noteq> Busy \<and>
             chat_completion self sem request toks = Inl e \<and>
             anext self request toks sem Fresh = (Raise e, Closed, sem)"
  using assms
  by (auto simp add: chat_completion_def anext_def check_model_def)

theorem model_error_before_gate_witness:
  "resolve_model example_self (model (example_request ''Llama-9'' True False)) = None \<and>
   chat_completion example_self 0 (example_request ''Llama-9'' True False) [tr 1 ''hi''] =
     Inl (Unknown_model ''Llama-9'') \<and>
   anext example_self (example_request ''Llama-9'' True False) [tr 1 ''hi''] 0 Fresh =
     (Raise (Unknown_model ''Llama-9''), Closed, 0) \<and>
   resolve_model example_self (model (example_request ''Meta-Llama3.1-70B-Instruct'' True False)) =
     Some ''Meta-Llama3.1-70B-Instruct'' \<and>
   descriptor example_self ''Meta-Llama3.1-70B-Instruct'' \<noteq>
     descriptor example_self (self_model example_self) \<and>
   chat_completion example_self 1 (example_request ''Meta-Llama3.1-70B-Instruct'' True False)
       [tr 1 ''hi''] =
     Inl (Model_mismatch ''Meta-Llama3.1-70B-Instruct'' ''Meta-Llama3.1-8B-Instruct'') \<and>
   anext example_self (example_request ''Meta-Llama3.1-70B-Instruct'' True False) [tr 1 ''hi'']
       1 Fresh =
     (Raise (Model_mismatch ''Meta-Llama3.1-70B-Instruct'' ''Meta-Llama3.1-8B-Instruct''),
      Closed, 1)"
proof -
  let ?u = "example_request ''Llama-9'' True False"
  let ?m = "example_request ''Meta-Llama3.1-70B-Instruct'' True False"
  have u: "resolve_model example_self (model ?u) = None"
    by (simp add: example_self_def example_request_def)
  have m1: "resolve_model example_self (model ?m) = Some ''Meta-Llama3.1-70B-Instruct''"
    by (simp add: example_self_def example_request_def)
  have m2: "descriptor example_self ''Meta-Llama3.1-70B-Instruct'' \<noteq>
     descriptor example_self (self_model example_self)"
    by (simp add: example_self_def)
  have hu: "resolve_model example_self (model ?u) = None \<or>
           (\<exists>m. resolve_model example_self (model ?u) = Some m \<and>
                descriptor example_self m \<noteq> descriptor example_self (self_model example_self))"
    using u by simp
  have hm: "resolve_model example_self (model ?m) = None \<or>
           (\<exists>m. resolve_model example_self (model ?m) = Some m \<and>
                descriptor example_self m \<noteq> descriptor example_self (self_model example_self))"
    using m1 m2 by simp
  have vu: "model ?u = ''Llama-9''" and vm: "model ?m = ''Meta-Llama3.1-70B-Instruct''"
    and vd: "descriptor example_self (self_model example_self) = ''Meta-Llama3.1-8B-Instruct''"
    by (simp_all add: example_self_def example_request_def)
  have "chat_completion example_self 0 ?u [tr 1 ''hi''] = Inl (Unknown_model ''Llama-9'') \<and>
        anext example_self ?u [tr 1 ''hi''] 0 Fresh = (Raise (Unknown_model ''Llama-9''), Closed, 0)"
    using model_error_before_gate [OF hu, of 0 "[tr 1 ''hi'']"] u
    by (simp add: vu)
  moreover have "chat_completion example_self 1 ?m [tr 1 ''hi''] =
       Inl (Model_mismatch ''Meta-Llama3.1-70B-Instruct'' ''Meta-Llama3.1-8B-Instruct'') \<and>
     anext example_self ?m [tr 1 ''hi''] 1 Fresh =
       (Raise (Model_mismatch ''Meta-Llama3.1-70B-Instruct'' ''Meta-Llama3.1-8B-Instruct''),
        Closed, 1)"
    using model_error_before_gate [OF hm, of 1 "[tr 1 ''hi'']"] m1
    by (simp add: vm vd)
  ultimately show ?thesis
    using u m1 m2 by simp
qed

text \<open>
  C4. A first call is started on the free semaphore and resumed at least once; while
  it is still suspended inside the loop, the semaphore is locked. A second call started
  then fails at its first resumption: it raises, yields nothing, is closed at once (it
  does not wait) and leaves the counter as it is. The error is \<open>Busy\<close> whenever the
  second request passes the model check, and then the whole second call is
  \<open>Inl Busy\<close>.
\<close>

theorem second_call_busy:
  assumes "resume_n self request1 toks1 (Suc n) (1, Fresh) = (sem, Suspended rest)"
  shows "locked sem \<and>
         (\<exists>e. anext self request2 toks2 sem Fresh = (Raise e, Closed, sem) \<and>
              (check_model self request2 = None \<longrightarrow> e = Busy)) \<and>
         (check_model self request2 = None \<longrightarrow>
            chat_completion self sem request2 toks2 = Inl Busy)"
proof -
  have "sem = 0"
    using assms by (simp only: resume_n_Fresh split: if_splits) simp_all
  then show ?thesis
    by (cases "check_model self request2")
       (simp_all add: anext_def chat_completion_def locked_def)
qed

theorem second_call_busy_witness:
  "resume_n example_self (example_request ''Meta-Llama3.1-8B-Instruct'' True False)
       [tr 1 ''Hello'', tr 2 '' world''] (Suc 1) (1, Fresh) =
     (0, Suspended [chunk progress (TextDelta '' world'') None,
                    chunk complete (TextDelta []) (Some out_of_tokens)]) \<and>
   check_model example_self (example_request ''Meta-Llama3.1-8B-Instruct'' True True) = None \<and>
   locked 0 \<and>
   anext example_self (example_request ''Meta-Llama3.1-8B-Instruct'' True True)
       [tr 7 ''Hi''] 0 Fresh = (Raise Busy, Closed, 0) \<and>
   chat_completion example_self 0 (example_request ''Meta-Llama3.1-8B-Instruct'' True True)
       [tr 7 ''Hi''] = Inl Busy"
proof -
  let ?r1 = "example_request ''Meta-Llama3.1-8B-Instruct'' True False"
  let ?r2 = "example_request ''Meta-Llama3.1-8B-Instruct'' True True"
  let ?t1 = "[tr 1 ''Hello'', tr 2 '' world'']"
  let ?rest = "[chunk progress (TextDelta '' world'') None,
                chunk complete (TextDelta []) (Some out_of_tokens)] :: int yielded list"
  have outs: "session_outputs example_self ?r1 ?t1 =
      [chunk start (TextDelta []) None, chunk progress (TextDelta ''Hello'') None,
       chunk progress (TextDelta '' world'') None,
       chunk complete (TextDelta []) (Some out_of_tokens)]"
    by (simp add: run_simps)
  have ok1: "check_model example_self ?r1 = None"
    by (simp add: run_simps)
  have h: "resume_n example_self ?r1 ?t1 (Suc 1) (1, Fresh) = (0, Suspended ?rest)"
    by (simp only: resume_n_Fresh outs ok1) simp
  have ok2: "check_model example_self ?r2 = None"
    by (simp add: run_simps)
  show ?thesis
    using h ok2 second_call_busy [OF h, of ?r2 "[tr 7 ''Hi'']"]
    by auto
qed

section \<open>Stop reasons, per mode\<close>

text \<open>In a streaming call every end marker sets the stop reason and yields nothing; with
  no marker at all the stop reason stays unset, in either mode, and resolves to
  \<open>out_of_tokens\<close>.\<close>

lemma stream_marker_classified:
  assumes "stream request" and "text x = eot_id \<or> text x = eom_id"
  shows "l_stop_reason (fst (loop request init (xs @ [x]))) =
           Some (if text x = eot_id then end_of_turn else end_of_message) \<and>
         snd (loop request init (xs @ [x])) = snd (loop request init xs)"
proof -
  have "settled (fst (loop request init xs))"
    by (simp add: settled_loop settled_init)
  then show ?thesis
    using marker_step [OF assms(1) _ assms(2), of "fst (loop request init xs)"]
    by (simp add: loop_snoc_fst loop_snoc_snd)
qed

lemma step_no_marker:
  assumes "text x \<noteq> eot_id" and "text x \<noteq> eom_id"
  shows "l_stop_reason (fst (step request s x)) = l_stop_reason s"
  using assms by (simp add: step_def Let_def case_prod_beta)

lemma loop_no_marker:
  assumes "\<forall>x \<in> set xs. text x \<noteq> eot_id \<and> text x \<noteq> eom_id"
  shows "l_stop_reason (fst (loop request s xs)) = l_stop_reason s"
  using assms by (induction xs arbitrary: s) (simp_all add: step_no_marker)

lemma exhausted_without_marker:
  assumes "\<forall>x \<in> set toks. text x \<noteq> eot_id \<and> text x \<noteq> eom_id"
  shows "resolve_stop_reason (l_stop_reason (fst (loop request init toks))) = out_of_tokens"
  using loop_no_marker [OF assms, of request init]
  by (simp add: init_def resolve_stop_reason_def)

text \<open>
  C1. A fragment equal to \<^verbatim>\<open><|eot_id|>\<close> or \<^verbatim>\<open><|eom_id|>\<close> is to set the stop reason to
  \<open>end_of_turn\<close> or \<open>end_of_message\<close> and never to be passed on as content, and
  without a marker the stop reason is \<open>out_of_tokens\<close>. Streaming calls do so
  (\<open>stream_marker_classified\<close>, \<open>loop_events_text\<close>, \<open>exhausted_without_marker\<close>).
  In a non-streaming call the \<^verbatim>\<open>continue\<close> of the \<^verbatim>\<open>if not request.stream\<close> block comes
  before the comparison with the markers: for the fragments \<^verbatim>\<open>Hi\<close>, \<^verbatim>\<open><|eot_id|>\<close>
  the stop reason is still unset after the loop and the decoder is handed
  \<open>out_of_tokens\<close>, where the streaming call on the same fragments has \<open>end_of_turn\<close>.
\<close>

theorem nonstreaming_marker_not_classified:
  "l_stop_reason (fst (loop (example_request ''Meta-Llama3.1-8B-Instruct'' False False) init
       [tr 1 ''Hi'', tr 2 ''<|eot_id|>''])) = None \<and>
   chat_completion example_self 1 (example_request ''Meta-Llama3.1-8B-Instruct'' False False)
       [tr 1 ''Hi'', tr 2 ''<|eot_id|>''] =
     Inr [ChatCompletionResponse
            (decode_assistant_message example_self [1, 2] out_of_tokens) None] \<and>
   l_stop_reason (fst (loop (example_request ''Meta-Llama3.1-8B-Instruct'' True False) init
       [tr 1 ''Hi'', tr 2 ''<|eot_id|>''])) = Some end_of_turn"
  by (simp add: run_simps)

section \<open>What a non-streaming call yields\<close>

lemma nonstream_loop_events:
  assumes "\<not> stream r"
    and "l_ipython s = prefix python_tag c"
    and "l_buffer s = (if l_ipython s then drop (length python_tag) c else c)"
  shows "snd (loop r s xs) =
           (if \<not> l_ipython s \<and> prefix python_tag (c @ concat (map text xs))
            then [chunk progress (ToolCallDelta (Str []) started) None] else [])"
  using assms(2,3)
proof (induction xs arbitrary: s c)
  case Nil
  then show ?case by simp
next
  case (Cons x xs)
  let ?s = "fst (step r s x)"
  have 1: "l_ipython ?s = prefix python_tag (c @ text x)"
    using Cons.prems by (rule step_detect(1))
  have 2: "l_buffer ?s =
           (if l_ipython ?s then drop (length python_tag) (c @ text x) else c @ text x)"
    using step_detect [OF Cons.prems, of r x] by simp
  have 3: "snd (loop r ?s xs) =
           (if \<not> l_ipython ?s \<and> prefix python_tag ((c @ text x) @ concat (map text xs))
            then [chunk progress (ToolCallDelta (Str []) started) None] else [])"
    using 1 2 by (rule Cons.IH)
  have 4: "\<not> l_ipython s \<Longrightarrow> l_buffer s @ text x = c @ text x"
    using Cons.prems by simp
  have 5: "prefix python_tag (c @ text x) \<Longrightarrow> prefix python_tag (c @ text x @ concat (map text xs))"
    by (metis append.assoc prefix_prefix)
  have 6: "snd (step r s x) =
           (if \<not> l_ipython s \<and> prefix python_tag (l_buffer s @ text x)
            then [chunk progress (ToolCallDelta (Str []) started) None] else [])"
    using assms(1) by (simp add: step_def Let_def)
  show ?case
    using 1 3 4 5 6 Cons.prems(1) by auto
qed

lemma nonstream_outputs:
  assumes "\<not> stream request"
  shows "session_outputs self request toks =
     (if prefix python_tag (concat (map text toks))
      then [chunk progress (ToolCallDelta (Str []) started) None] else []) @
     [ChatCompletionResponse
        (decode_assistant_message self (map token toks) out_of_tokens)
        (if logprobs request then Some (l_logprobs (fst (loop request init toks))) else None)]"
proof -
  have "snd (loop request init toks) =
     (if prefix python_tag (concat (map text toks))
      then [chunk progress (ToolCallDelta (Str []) started) None] else [])"
    using nonstream_loop_events [OF assms, of init "[]" toks]
    by (simp add: init_def python_tag_def)
  then show ?thesis
    by (simp add: session_outputs_nonstream [OF assms])
qed

text \<open>
  C2. A non-streaming call is to yield no stream event and a single response, with the
  log-probabilities exactly when they were requested. It does so when its text does
  not begin with \<^verbatim>\<open><|python_tag|>\<close> (\<open>nonstream_outputs\<close>). The \<^verbatim>\<open>yield\<close> on entering
  tool-call mode is the only one not under a test of \<^verbatim>\<open>request.stream\<close>: for the
  fragments \<^verbatim>\<open><|python_tag|>\<close>, \<^verbatim>\<open>foo()\<close> a non-streaming call yields a progress chunk
  of status \<open>started\<close> before its response.
\<close>

theorem nonstreaming_yields_started_chunk:
  "chat_completion example_self 1 (example_request ''Meta-Llama3.1-8B-Instruct'' False True)
       [tr 1 ''<|python_tag|>'', tr 100 ''foo()''] =
     Inr [chunk progress (ToolCallDelta (Str []) started) None,
          ChatCompletionResponse
            \<lparr>content = [], msg_stop_reason = out_of_tokens,
             tool_calls = [\<lparr>call_id = [], tool_name = ''foo'', arguments = []\<rparr>]\<rparr>
            (Some [- 100])]"
  by (simp add: run_simps)

section \<open>After tool-call mode is entered\<close>

lemma tool_mode_loop:
  assumes "stream r" and "l_ipython s" and "l_stop_reason s = None"
  shows "snd (loop r s ys) =
           map (\<lambda>y. chunk progress (ToolCallDelta (Str (text y)) in_progress) None)
               (takeWhile (\<lambda>y. text y \<noteq> eot_id \<and> text y \<noteq> eom_id) ys)"
  using assms(2,3)
proof (induction ys arbitrary: s)
  case Nil
  show ?case by simp
next
  case (Cons y ys)
  show ?case
  proof (cases "text y = eot_id \<or> text y = eom_id")
    case True
    have st: "step r s y =
           (s\<lparr>l_buffer := l_buffer s @ text y, l_tokens := l_tokens s @ [token y],
              l_stop_reason := Some (if text y = eot_id then end_of_turn else end_of_message)\<rparr>,
            [])"
      using Cons.prems(1) assms(1) True by (intro step_marker) simp_all
    have "snd (loop r (fst (step r s y)) ys) = []"
      using stopped_loop [OF assms(1), of "fst (step r s y)" ys] Cons.prems(1)
      by (simp add: st no_entry_def)
    then show ?thesis
      using True by (auto simp add: st)
  next
    case False
    have st: "step r s y =
           (s\<lparr>l_buffer := l_buffer s @ text y, l_tokens := l_tokens s @ [token y]\<rparr>,
            [chunk progress (ToolCallDelta (Str (text y)) in_progress) None])"
      using step_plain [of s y r] Cons.prems assms(1) False by simp
    have "snd (loop r (fst (step r s y)) ys) =
           map (\<lambda>y. chunk progress (ToolCallDelta (Str (text y)) in_progress) None)
               (takeWhile (\<lambda>y. text y \<noteq> eot_id \<and> text y \<noteq> eom_id) ys)"
      using Cons.prems by (intro Cons.IH) (simp_all add: st)
    then show ?thesis
      using False by (simp add: st)
  qed
qed

text \<open>
  C7. In a streaming call, the fragment on which tool-call mode is entered yields
  exactly one chunk, a tool-call delta of status \<open>started\<close> with empty content. What is left of the buffer after the prefix is stripped stays in the
  buffer: every later fragment, up to the first end marker, yields a tool-call delta
  of status \<open>in_progress\<close> whose content is that fragment's own text.
\<close>

theorem tool_call_entry_events:
  assumes "stream request"
    and "\<not> l_ipython (fst (loop request init xs))"
    and "l_ipython (fst (loop request init (xs @ [x])))"
  shows "snd (loop request init (xs @ x # ys)) =
           snd (loop request init xs) @
           chunk progress (ToolCallDelta (Str []) started) None #
           map (\<lambda>y. chunk progress (ToolCallDelta (Str (text y)) in_progress) None)
               (takeWhile (\<lambda>y. text y \<noteq> eot_id \<and> text y \<noteq> eom_id) ys) \<and>
         l_buffer (fst (loop request init (xs @ [x]))) =
           drop (length python_tag) (concat (map text (xs @ [x])))"
proof -
  let ?s = "fst (loop request init xs)"
  have settled: "settled ?s"
    by (simp add: settled_loop settled_init)
  have enter: "prefix python_tag (l_buffer ?s @ text x)"
  proof (rule ccontr)
    assume "\<not> prefix python_tag (l_buffer ?s @ text x)"
    then have "l_ipython (fst (step request ?s x)) = l_ipython ?s"
      by (simp add: step_def Let_def case_prod_beta)
    then show False
      using assms(2,3) by (simp add: loop_snoc_fst)
  qed
  have none: "l_stop_reason ?s = None"
  proof (rule ccontr)
    assume "l_stop_reason ?s \<noteq> None"
    then have "no_entry ?s"
      using settled by (simp add: settled_def)
    then show False
      using assms(2) enter by (simp add: no_entry_def)
  qed
  have st: "step request ?s x =
           (?s\<lparr>l_buffer := drop (length python_tag) (l_buffer ?s @ text x),
              l_tokens := l_tokens ?s @ [token x], l_ipython := True\<rparr>,
            [chunk progress (ToolCallDelta (Str []) started) None])"
    using assms(2) enter by (rule step_enter)
  have "snd (loop request (fst (step request ?s x)) ys) =
           map (\<lambda>y. chunk progress (ToolCallDelta (Str (text y)) in_progress) None)
               (takeWhile (\<lambda>y. text y \<noteq> eot_id \<and> text y \<noteq> eom_id) ys)"
    using none by (intro tool_mode_loop [OF assms(1)]) (simp_all add: st)
  then have events: "snd (loop request init (xs @ x # ys)) =
           snd (loop request init xs) @
           chunk progress (ToolCallDelta (Str []) started) None #
           map (\<lambda>y. chunk progress (ToolCallDelta (Str (text y)) in_progress) None)
               (takeWhile (\<lambda>y. text y \<noteq> eot_id \<and> text y \<noteq> eom_id) ys)"
    by (simp add: loop_append_snd st)
  have "l_buffer (fst (loop request init (xs @ [x]))) =
           drop (length python_tag) (concat (map text (xs @ [x])))"
    using init_detect [of request "xs @ [x]"] assms(3) by simp
  with events show ?thesis
    by simp
qed

theorem tool_call_entry_events_witness:
  "stream (example_request ''Meta-Llama3.1-8B-Instruct'' True False) \<and>
   \<not> l_ipython (fst (loop (example_request ''Meta-Llama3.1-8B-Instruct'' True False) init
        [tr 1 ''<|python''])) \<and>
   l_ipython (fst (loop (example_request ''Meta-Llama3.1-8B-Instruct'' True False) init
        ([tr 1 ''<|python''] @ [tr 2 ''_tag|>foo'']))) \<and>
   snd (loop (example_request ''Meta-Llama3.1-8B-Instruct'' True False) init
        ([tr 1 ''<|python''] @ tr 2 ''_tag|>foo'' # [tr 3 ''bar'', tr 4 ''<|eot_id|>'', tr 5 ''x''])) =
     [chunk progress (TextDelta ''<|python'') None,
      chunk progress (ToolCallDelta (Str []) started) None,
      chunk progress (ToolCallDelta (Str ''bar'') in_progress) None] \<and>
   l_buffer (fst (loop (example_request ''Meta-Llama3.1-8B-Instruct'' True False) init
        ([tr 1 ''<|python''] @ [tr 2 ''_tag|>foo'']))) = ''foo''"
proof -
  let ?r = "example_request ''Meta-Llama3.1-8B-Instruct'' True False"
  let ?xs = "[tr 1 ''<|python'']"
  let ?x = "tr 2 ''_tag|>foo''"
  let ?ys = "[tr 3 ''bar'', tr 4 ''<|eot_id|>'', tr 5 ''x'']"
  have h1: "stream ?r"
    by (simp add: example_request_def)
  have h2: "\<not> l_ipython (fst (loop ?r init ?xs))"
    by (simp add: run_simps)
  have h3: "l_ipython (fst (loop ?r init (?xs @ [?x])))"
    by (simp add: run_simps)
  have pre: "snd (loop ?r init ?xs) = [chunk progress (TextDelta ''<|python'') None]"
    by (simp add: run_simps)
  have tw: "takeWhile (\<lambda>y. text y \<noteq> eot_id \<and> text y \<noteq> eom_id) ?ys = [tr 3 ''bar'']"
    by (simp add: tr_def eot_id_def eom_id_def)
  have tx: "text (tr 3 ''bar'') = ''bar''"
    by (simp add: tr_def)
  have cc: "drop (length python_tag) (concat (map text (?xs @ [?x]))) = ''foo''"
    by (simp add: tr_def python_tag_def)
  note t = tool_call_entry_events [OF h1 h2 h3, of ?ys]
  have "snd (loop ?r init (?xs @ ?x # ?ys)) =
     [chunk progress (TextDelta ''<|python'') None,
      chunk progress (ToolCallDelta (Str []) started) None,
      chunk progress (ToolCallDelta (Str ''bar'') in_progress) None]"
    using conjunct1 [OF t] by (simp only: pre tw tx list.map append.simps)
  moreover have "l_buffer (fst (loop ?r init (?xs @ [?x]))) = ''foo''"
    using conjunct2 [OF t] by (simp only: cc)
  ultimately show ?thesis
    using h1 h2 h3 by blast
qed

text \<open>
  C7. The remainder of the buffer is not the content of the next chunk: for the
  fragments \<^verbatim>\<open><|python_tag|>foo\<close>, \<^verbatim>\<open>bar\<close> the buffer holds \<^verbatim>\<open>foo\<close> after the prefix
  is stripped, the chunk for the next fragment carries \<^verbatim>\<open>bar\<close>, and no chunk of the
  call carries \<^verbatim>\<open>foo\<close>.
\<close>

theorem buffer_remainder_not_emitted_counterexample:
  "l_buffer (fst (loop (example_request ''Meta-Llama3.1-8B-Instruct'' True False) init
       [tr 1 ''<|python_tag|>foo''])) = ''foo'' \<and>
   chat_completion example_self 1 (example_request ''Meta-Llama3.1-8B-Instruct'' True False)
       [tr 1 ''<|python_tag|>foo'', tr 2 ''bar''] =
     Inr [chunk start (TextDelta []) None,
          chunk progress (ToolCallDelta (Str []) started) None,
          chunk progress (ToolCallDelta (Str ''bar'') in_progress) None,
          chunk progress (ToolCallDelta (Str []) failure) (Some out_of_tokens),
          chunk complete (TextDelta []) (Some out_of_tokens)] \<and>
   map carried_text
     [chunk start (TextDelta []) None,
      chunk progress (ToolCallDelta (Str []) started) None,
      chunk progress (ToolCallDelta (Str ''bar'') in_progress) None,
      chunk progress (ToolCallDelta (Str []) failure) (Some out_of_tokens),
      chunk complete (TextDelta []) (Some out_of_tokens) :: int yielded] =
     [Some [], Some [], Some ''bar'', Some [], Some []] \<and>
   Some ''foo'' \<notin> set [Some [], Some [], Some ''bar'', Some [], Some []]"
  by (simp add: run_simps)

section \<open>The generator token by token, and what it has still to yield\<close>

lemma step_yields_at_most_one: "length (snd (step r s x)) \<le> 1"
  by (simp add: step_def Let_def case_prod_beta)

lemma session_outputs_split:
  "session_outputs self request toks =
     (if stream request then [chunk start (TextDelta []) None] else []) @
     snd (loop request init toks) @ finish self request (fst (loop request init toks))"
  by (simp add: session_outputs_def finish_def Let_def case_prod_beta)

lemma next_yield_pending:
  "(case next_yield self request sem s ts of
      (r, c, sem') \<Rightarrow> (r, pending self request c, sem')) =
   emit (snd (loop request s ts) @ finish self request (fst (loop request s ts))) sem"
proof (induction ts arbitrary: s)
  case Nil
  show ?case
    by (simp add: emit_def split: list.splits)
next
  case (Cons t ts)
  show ?case
  proof (cases "snd (step request s t)")
    case Nil
    then have "step request s t = (fst (step request s t), [])"
      by (metis prod.collapse)
    then have "next_yield self request sem s (t # ts) =
               next_yield self request sem (fst (step request s t)) ts"
      by (metis (mono_tags, lifting) list.simps(4) next_yield.simps(2) old.prod.case)
    then show ?thesis
      using Cons.IH [of "fst (step request s t)"] Nil by simp
  next
    case (Cons y more)
    then have more: "more = []"
      using step_yields_at_most_one [of request s t] by simp
    have "step request s t = (fst (step request s t), y # more)"
      using Cons by (metis prod.collapse)
    then have "next_yield self request sem s (t # ts) =
               (Yield y, In_loop (fst (step request s t)) ts, sem)"
      by (metis (mono_tags, lifting) list.simps(5) next_yield.simps(2) old.prod.case)
    then show ?thesis
      using Cons more by (simp add: emit_def)
  qed
qed

text \<open>Every resumption of the generator, taken token by token, is the resumption of
  \<open>anext\<close> on what the generator has still to yield.\<close>

lemma resume_refines_anext:
  "(case resume self request toks sem c of
      (r, c', sem') \<Rightarrow> (r, pending self request c', sem')) =
   anext self request toks sem (pending self request c)"
proof (cases c)
  case Not_started
  show ?thesis
  proof (cases "check_model self request")
    case (Some e)
    then show ?thesis
      using Not_started by (simp add: resume_def anext_def)
  next
    case None
    show ?thesis
    proof (cases "stream request")
      case True
      then show ?thesis
        using Not_started None
        by (simp add: resume_def anext_def session_outputs_split emit_def)
    next
      case False
      then show ?thesis
        using Not_started None next_yield_pending [of self request "sem - 1" init toks]
        by (simp add: resume_def anext_def session_outputs_split)
    qed
  qed
next
  case (In_loop s rest)
  then show ?thesis
    using next_yield_pending [of self request sem s rest]
    by (simp add: resume_def anext_def)
next
  case (After_loop outs)
  then show ?thesis
    by (simp add: resume_def anext_def emit_def split: list.splits)
next
  case Done
  then show ?thesis
    by (simp add: resume_def anext_def)
qed

section \<open>The stop reason of a streaming call\<close>

lemma stream_stop_reason:
  assumes "stream request"
  shows "resolve_stop_reason (l_stop_reason (fst (loop request init toks))) =
           stop_reason_of_texts (map text toks)"
proof (induction toks rule: rev_induct)
  case Nil
  show ?case
    by (simp add: init_def resolve_stop_reason_def stop_reason_of_texts_def)
next
  case (snoc x xs)
  show ?case
  proof (cases "text x = eot_id \<or> text x = eom_id")
    case True
    have "l_stop_reason (fst (loop request init (xs @ [x]))) =
           Some (if text x = eot_id then end_of_turn else end_of_message)"
      using stream_marker_classified [OF assms True, of xs] by simp
    then show ?thesis
      using True
      by (auto simp add: resolve_stop_reason_def stop_reason_of_texts_def eot_id_def eom_id_def)
  next
    case False
    then have "l_stop_reason (fst (loop request init (xs @ [x]))) =
               l_stop_reason (fst (loop request init xs))"
      by (simp add: loop_snoc_fst step_no_marker)
    then show ?thesis
      using False snoc.IH
      by (simp add: stop_reason_of_texts_def eot_id_def eom_id_def)
  qed
qed

section \<open>The event sequence of a streaming call\<close>

text \<open>
  C3. A streaming call that runs to completion yields the start event first, then
  progress events only, then the complete event; there is exactly one start event and
  exactly one complete event. The stop reason field of the complete event holds the
  stop reason read off the fragments: that of the last end marker, \<open>out_of_tokens\<close>
  when there is none, which is also what the loop resolves to. The start event is
  what the first resumption of the generator yields, and the generator is then at the
  head of the loop with untouched locals and all token results still to be asked for:
  no token is consumed before the start event.
\<close>

theorem streaming_event_sequence:
  assumes "stream request"
    and "chat_completion self sem request toks = Inr outs"
  shows "\<exists>ps. outs =
              ChatCompletionResponseStreamChunk
                \<lparr>event_type = start, delta = TextDelta [], stop_reason = None\<rparr> # ps @
              [ChatCompletionResponseStreamChunk
                 \<lparr>event_type = complete, delta = TextDelta [],
                  stop_reason = Some (stop_reason_of_texts (map text toks))\<rparr>] \<and>
              (\<forall>p \<in> set ps. is_event progress p) \<and>
              length (filter (is_event start) outs) = 1 \<and>
              length (filter (is_event complete) outs) = 1 \<and>
              resolve_stop_reason (l_stop_reason (fst (loop request init toks))) =
                stop_reason_of_texts (map text toks) \<and>
              resume self request toks sem Not_started =
                (Yield (ChatCompletionResponseStreamChunk
                         \<lparr>event_type = start, delta = TextDelta [], stop_reason = None\<rparr>),
                 In_loop \<lparr>l_tokens = [], l_logprobs = [], l_stop_reason = None,
                          l_buffer = [], l_ipython = False\<rparr> toks,
                 sem - 1) \<and>
              anext self request toks sem Fresh =
                (Yield (ChatCompletionResponseStreamChunk
                         \<lparr>event_type = start, delta = TextDelta [], stop_reason = None\<rparr>),
                 Suspended (ps @
                   [ChatCompletionResponseStreamChunk
                      \<lparr>event_type = complete, delta = TextDelta [],
                       stop_reason = Some (stop_reason_of_texts (map text toks))\<rparr>]),
                 sem - 1)"
proof -
  let ?sr = "resolve_stop_reason (l_stop_reason (fst (loop request init toks)))"
  let ?m = "decode_assistant_message self (map token toks) ?sr"
  let ?fail = "(if l_ipython (fst (loop request init toks)) \<and> tool_calls ?m = []
      then [chunk progress (ToolCallDelta (Str []) failure) (Some ?sr)]
      else [])"
  let ?succ = "map (\<lambda>tool_call. chunk progress (ToolCallDelta (Call tool_call) success) (Some ?sr))
         (tool_calls ?m)"
  let ?ps = "snd (loop request init toks) @ ?fail @ ?succ"
  let ?start = "ChatCompletionResponseStreamChunk
                  \<lparr>event_type = start, delta = TextDelta [], stop_reason = None\<rparr>"
  let ?complete = "ChatCompletionResponseStreamChunk
                 \<lparr>event_type = complete, delta = TextDelta [],
                  stop_reason = Some (stop_reason_of_texts (map text toks))\<rparr>"
  have sr: "?sr = stop_reason_of_texts (map text toks)"
    using assms(1) by (rule stream_stop_reason)
  have ck: "check_model self request = None" "\<not> locked sem"
    and so: "outs = session_outputs self request toks"
    using assms(2) by (simp_all add: chat_completion_Inr)
  have so': "session_outputs self request toks = ?start # ?ps @ [?complete]"
    using session_outputs_stream [OF assms(1), of self toks]
    by (simp only: sr) (simp add: chunk_def)
  have outs: "outs = ?start # ?ps @ [?complete]"
    using so so' by simp
  have prog: "\<forall>p \<in> set ?ps. is_event progress p"
    using loop_events_progress [of request init toks] by auto
  have "filter (is_event start) ?ps = []" "filter (is_event complete) ?ps = []"
    using prog by (auto intro!: filter_none dest: progress_not_start progress_not_complete)
  then have counts: "length (filter (is_event start) outs) = 1"
      "length (filter (is_event complete) outs) = 1"
    by (simp_all add: outs)
  have lazy: "resume self request toks sem Not_started =
      (Yield ?start,
       In_loop \<lparr>l_tokens = [], l_logprobs = [], l_stop_reason = None,
                l_buffer = [], l_ipython = False\<rparr> toks, sem - 1)"
    using ck assms(1) by (simp add: resume_def chunk_def init_def)
  have eager: "anext self request toks sem Fresh =
      (Yield ?start, Suspended (?ps @ [?complete]), sem - 1)"
    using ck by (simp only: anext_def emit_def so') simp
  from outs prog counts sr lazy eager show ?thesis
    by blast
qed

theorem streaming_event_sequence_witness:
  "stream (example_request ''Meta-Llama3.1-8B-Instruct'' True False) \<and>
   chat_completion example_self 1 (example_request ''Meta-Llama3.1-8B-Instruct'' True False)
       [tr 1 ''Hi'', tr 2 ''<|eot_id|>'', tr 3 ''x'', tr 4 ''<|eom_id|>''] =
     Inr [ChatCompletionResponseStreamChunk
            \<lparr>event_type = start, delta = TextDelta [], stop_reason = None\<rparr>,
          ChatCompletionResponseStreamChunk
            \<lparr>event_type = progress, delta = TextDelta ''Hi'', stop_reason = None\<rparr>,
          ChatCompletionResponseStreamChunk
            \<lparr>event_type = complete, delta = TextDelta [],
             stop_reason = Some end_of_message\<rparr>] \<and>
   stop_reason_of_texts (map text [tr 1 ''Hi'', tr 2 ''<|eot_id|>'', tr 3 ''x'',
      tr 4 ''<|eom_id|>'']) = end_of_message \<and>
   chat_completion example_self 1 (example_request ''Meta-Llama3.1-8B-Instruct'' True False)
       [tr 1 ''Hello'', tr 2 '' world''] =
     Inr [ChatCompletionResponseStreamChunk
            \<lparr>event_type = start, delta = TextDelta [], stop_reason = None\<rparr>,
          ChatCompletionResponseStreamChunk
            \<lparr>event_type = progress, delta = TextDelta ''Hello'', stop_reason = None\<rparr>,
          ChatCompletionResponseStreamChunk
            \<lparr>event_type = progress, delta = TextDelta '' world'', stop_reason = None\<rparr>,
          ChatCompletionResponseStreamChunk
            \<lparr>event_type = complete, delta = TextDelta [],
             stop_reason = Some out_of_tokens\<rparr>] \<and>
   stop_reason_of_texts (map text [tr 1 ''Hello'', tr 2 '' world'']) = out_of_tokens \<and>
   resume example_self (example_request ''Meta-Llama3.1-8B-Instruct'' True False)
       [tr 1 ''Hello'', tr 2 '' world''] 1 Not_started =
     (Yield (ChatCompletionResponseStreamChunk
               \<lparr>event_type = start, delta = TextDelta [], stop_reason = None\<rparr>),
      In_loop \<lparr>l_tokens = [], l_logprobs = [], l_stop_reason = None,
               l_buffer = [], l_ipython = False\<rparr> [tr 1 ''Hello'', tr 2 '' world''],
      0)"
proof -
  let ?r = "example_request ''Meta-Llama3.1-8B-Instruct'' True False"
  let ?t1 = "[tr 1 ''Hi'', tr 2 ''<|eot_id|>'', tr 3 ''x'', tr 4 ''<|eom_id|>'']"
  let ?t2 = "[tr 1 ''Hello'', tr 2 '' world'']"
  let ?start = "ChatCompletionResponseStreamChunk
            \<lparr>event_type = start, delta = TextDelta [], stop_reason = None\<rparr> :: int yielded"
  let ?o1 = "[?start,
          ChatCompletionResponseStreamChunk
            \<lparr>event_type = progress, delta = TextDelta ''Hi'', stop_reason = None\<rparr>,
          ChatCompletionResponseStreamChunk
            \<lparr>event_type = complete, delta = TextDelta [],
             stop_reason = Some end_of_message\<rparr>]"
  let ?o2 = "[?start,
          ChatCompletionResponseStreamChunk
            \<lparr>event_type = progress, delta = TextDelta ''Hello'', stop_reason = None\<rparr>,
          ChatCompletionResponseStreamChunk
            \<lparr>event_type = progress, delta = TextDelta '' world'', stop_reason = None\<rparr>,
          ChatCompletionResponseStreamChunk
            \<lparr>event_type = complete, delta = TextDelta [],
             stop_reason = Some out_of_tokens\<rparr>]"
  have h1: "stream ?r"
    by (simp add: example_request_def)
  have a: "chat_completion example_self 1 ?r ?t1 = Inr ?o1"
    by (simp add: run_simps chunk_def)
  have b: "chat_completion example_self 1 ?r ?t2 = Inr ?o2"
    by (simp add: run_simps chunk_def)
  have ea: "stop_reason_of_texts (map text ?t1) = end_of_message"
    by (simp add: stop_reason_of_texts_def tr_def)
  have eb: "stop_reason_of_texts (map text ?t2) = out_of_tokens"
    by (simp add: stop_reason_of_texts_def tr_def)
  obtain ps where
    "?o1 = ?start # ps @ [ChatCompletionResponseStreamChunk
                 \<lparr>event_type = complete, delta = TextDelta [],
                  stop_reason = Some (stop_reason_of_texts (map text ?t1))\<rparr>]"
    using streaming_event_sequence [OF h1 a] by blast
  obtain qs where
    "resume example_self ?r ?t2 1 Not_started =
       (Yield ?start,
        In_loop \<lparr>l_tokens = [], l_logprobs = [], l_stop_reason = None,
                 l_buffer = [], l_ipython = False\<rparr> ?t2, 1 - 1)"
    using streaming_event_sequence [OF h1 b] by blast
  then show ?thesis
    using h1 a b ea eb by simp
qed

end
